theory Spec2Isabelle
  imports Complex_Main "HOL-Library.Word"
begin

section \<open>Memory arbitration participant (ArbitrationParticipant.cpp)\<close>

text \<open>
  \<^verbatim>\<open>uint64_t\<close> values are 64-bit words: \<open>+\<close>, \<open>-\<close> and \<open>*\<close> wrap around and the
  order is the unsigned one. The configuration's \<^verbatim>\<open>double\<close> fields carry their
  (finite) value as a \<open>real\<close>; they are only compared with zero and handed to the
  product below.
\<close>

type_synonym u64 = "64 word"

text \<open>
  The exceptions of the code, all derived from \<^verbatim>\<open>std::exception\<close>: a failed
  \<^verbatim>\<open>VELOX_CHECK\<close>, the timeout raised by \<^verbatim>\<open>ArbitrationTimedLock\<close>, and whatever
  the memory pool (an external collaborator) throws, tagged by a number.
  \<open>NullPointer\<close> stands for the use of an empty \<^verbatim>\<open>unique_ptr\<close> in the hash build
  operator, which the model reports instead of leaving it undefined.
\<close>

datatype error = VeloxCheckFailure | MemArbitrationTimeout | PoolError nat | NullPointer

text \<open>
  A \<^verbatim>\<open>noexcept\<close> function either returns or, when an exception reaches its
  boundary, ends the process through \<^verbatim>\<open>std::terminate\<close>.
\<close>

datatype 'a outcome = Returns 'a | Terminates

record Config =
  initCapacity :: u64
  minCapacity :: u64
  fastExponentialGrowthCapacityLimit :: u64
  slowCapacityGrowRatio :: real
  minFreeCapacity :: u64
  minFreeCapacityRatio :: real
  minReclaimBytes :: u64
  minReclaimPct :: real

text \<open>
  What the code reads from the memory pool, as the values its accessors return:
  \<^verbatim>\<open>capacity()\<close>, \<^verbatim>\<open>freeBytes()\<close>, \<^verbatim>\<open>reservedBytes()\<close>, \<^verbatim>\<open>peakBytes()\<close>,
  \<^verbatim>\<open>reclaimableBytes()\<close> (an optional), \<^verbatim>\<open>aborted()\<close> and \<^verbatim>\<open>maxCapacity()\<close>.
  The code stores each of the byte counts in a \<^verbatim>\<open>uint64_t\<close>. The capacity of a
  pool is a signed 64-bit number that is never negative (at most \<^verbatim>\<open>kMaxMemory\<close>,
  the largest \<^verbatim>\<open>int64_t\<close>): \<open>poolCapacity\<close> holds it in 63 bits.
\<close>

record MemoryPool =
  poolCapacity :: "63 word"
  freeBytes :: u64
  reservedBytes :: u64
  peakBytes :: u64
  reclaimableBytes :: "u64 option"
  pool_aborted :: bool
  pool_maxCapacity :: u64

text \<open>
  \<^verbatim>\<open>pool_->capacity()\<close> as the code holds it, in a \<^verbatim>\<open>uint64_t\<close>
  (\<^verbatim>\<open>const uint64_t capacity = pool_->capacity()\<close>).
\<close>

definition capacity :: "MemoryPool \<Rightarrow> u64" where
  "capacity mp = ucast (poolCapacity mp)"

text \<open>\<^verbatim>\<open>MemoryReclaimer::Stats\<close>, the caller's record that reclaim passes on to the pool.\<close>

record ReclaimerStats =
  numNonReclaimableAttempts :: u64

text \<open>
  The collaborators of the participant, whose code is outside this file of the
  repository. They are parameters of the model.
  \<^item> \<open>scale c r\<close> is \<^verbatim>\<open>static_cast<uint64_t>(c * r)\<close>, the product of a
    \<^verbatim>\<open>uint64_t\<close> and a \<^verbatim>\<open>double\<close> computed in double precision and truncated;
  \<^item> \<open>tryLockFor ns\<close> tells whether \<^verbatim>\<open>reclaimMutex_.try_lock_for(ns)\<close> succeeds;
  \<^item> \<open>poolReclaim\<close>, \<open>poolShrink\<close>, \<open>poolGrow\<close> and \<open>poolAbort\<close> are the pool's
    methods: each returns the pool as it leaves it and either a result or the
    exception it throws.
\<close>

record Env =
  scale :: "u64 \<Rightarrow> real \<Rightarrow> u64"
  tryLockFor :: "u64 \<Rightarrow> bool"
  poolReclaim :: "MemoryPool \<Rightarrow> u64 \<Rightarrow> u64 \<Rightarrow> ReclaimerStats
                   \<Rightarrow> MemoryPool \<times> ReclaimerStats \<times> (error + u64)"
  poolShrink :: "MemoryPool \<Rightarrow> u64 \<Rightarrow> MemoryPool \<times> (error + u64)"
  poolGrow :: "MemoryPool \<Rightarrow> u64 \<Rightarrow> u64 \<Rightarrow> MemoryPool \<times> (error + bool)"
  poolAbort :: "MemoryPool \<Rightarrow> error \<Rightarrow> MemoryPool \<times> error option"

text \<open>
  The participant: its configuration, its pool, \<^verbatim>\<open>maxCapacity_\<close>, the running
  operation and the queue of waiting ones (operations are identified by a number,
  the code by their address), the \<^verbatim>\<open>aborted_\<close> flag and the counters.
\<close>

record ArbitrationParticipant =
  config :: Config
  pool :: MemoryPool
  maxCapacity :: u64
  runningOp :: "nat option"
  waitOps :: "nat list"
  aborted :: bool
  numRequests :: nat
  numReclaims :: nat
  numShrinks :: nat
  numGrows :: nat
  reclaimedBytes :: u64
  growBytes :: u64

definition maxGrowCapacity :: "ArbitrationParticipant \<Rightarrow> error + u64" where
  "maxGrowCapacity p =
     (let cap = capacity (pool p)
      in if cap \<le> maxCapacity p then Inr (maxCapacity p - cap) else Inl VeloxCheckFailure)"

definition minGrowCapacity :: "ArbitrationParticipant \<Rightarrow> u64" where
  "minGrowCapacity p =
     (let cap = capacity (pool p)
      in if cap \<ge> minCapacity (config p) then 0 else minCapacity (config p) - cap)"

definition inactivePool :: "ArbitrationParticipant \<Rightarrow> bool" where
  "inactivePool p \<longleftrightarrow> reservedBytes (pool p) = 0 \<and> peakBytes (pool p) \<noteq> 0"

definition maxReclaimableCapacity :: "ArbitrationParticipant \<Rightarrow> u64" where
  "maxReclaimableCapacity p =
     (if inactivePool p then capacity (pool p)
      else let capacityBytes = capacity (pool p)
           in if capacityBytes < minCapacity (config p) then 0
              else capacityBytes - minCapacity (config p))"

definition maxShrinkCapacity :: "Env \<Rightarrow> ArbitrationParticipant \<Rightarrow> u64" where
  "maxShrinkCapacity env p =
     (let cap = capacity (pool p);
          free = freeBytes (pool p)
      in if minFreeCapacity (config p) \<noteq> 0 \<and> \<not> inactivePool p
         then let minFreeBytes = min (scale env cap (minFreeCapacityRatio (config p)))
                                     (minFreeCapacity (config p))
              in if free \<le> minFreeBytes then 0 else free - minFreeBytes
         else free)"

definition reclaimableFreeCapacity :: "Env \<Rightarrow> ArbitrationParticipant \<Rightarrow> u64" where
  "reclaimableFreeCapacity env p = min (maxShrinkCapacity env p) (maxReclaimableCapacity p)"

text \<open>
  \<^verbatim>\<open>std::min<int64_t>(a, b)\<close> converts both \<^verbatim>\<open>uint64_t\<close> arguments to
  \<^verbatim>\<open>int64_t\<close>, returns \<^verbatim>\<open>b\<close> when \<^verbatim>\<open>b < a\<close> as signed numbers and \<^verbatim>\<open>a\<close> otherwise,
  and the result goes back to \<^verbatim>\<open>uint64_t\<close>.
\<close>

definition min_int64 :: "u64 \<Rightarrow> u64 \<Rightarrow> u64" where
  "min_int64 a b = (if sint b < sint a then b else a)"

definition value_or :: "'a option \<Rightarrow> 'a \<Rightarrow> 'a" where
  "value_or x d = (case x of None \<Rightarrow> d | Some v \<Rightarrow> v)"

definition reclaimableUsedCapacity :: "ArbitrationParticipant \<Rightarrow> u64" where
  "reclaimableUsedCapacity p =
     (let maxReclaimableBytes = maxReclaimableCapacity p;
          reclaimable = reclaimableBytes (pool p)
      in min_int64 maxReclaimableBytes (value_or reclaimable 0))"

text \<open>
  \<^verbatim>\<open>getGrowTargets\<close> writes \<^verbatim>\<open>maxGrowBytes\<close> and \<^verbatim>\<open>minGrowBytes\<close> through its
  reference parameters and ends with two \<^verbatim>\<open>VELOX_CHECK_LE\<close>; the model returns the
  pair (\<^verbatim>\<open>maxGrowBytes\<close>, \<^verbatim>\<open>minGrowBytes\<close>) or the check failure.
\<close>

definition getGrowTargets :: "Env \<Rightarrow> ArbitrationParticipant \<Rightarrow> u64 \<Rightarrow> error + (u64 \<times> u64)" where
  "getGrowTargets env p requestBytes =
     (let cap = capacity (pool p);
          maxGrowBytes0 =
            (if fastExponentialGrowthCapacityLimit (config p) = 0 \<and>
                slowCapacityGrowRatio (config p) = 0
             then requestBytes
             else if cap * 2 \<le> fastExponentialGrowthCapacityLimit (config p) then cap
             else scale env cap (slowCapacityGrowRatio (config p)));
          maxGrowBytes1 = max requestBytes maxGrowBytes0;
          minGrowBytes = minGrowCapacity p;
          maxGrowBytes2 = max maxGrowBytes1 minGrowBytes
      in case maxGrowCapacity p of
           Inl e \<Rightarrow> Inl e
         | Inr maxGrow \<Rightarrow>
             (let maxGrowBytes = min maxGrow maxGrowBytes2
              in if \<not> minGrowBytes \<le> maxGrowBytes then Inl VeloxCheckFailure
                 else if \<not> requestBytes \<le> maxGrowBytes then Inl VeloxCheckFailure
                 else Inr (maxGrowBytes, minGrowBytes)))"

text \<open>
  \<^verbatim>\<open>startArbitration\<close> and \<^verbatim>\<open>finishArbitration\<close>, each the section it runs under
  \<^verbatim>\<open>stateLock_\<close>. \<open>startArbitration\<close> also tells whether the caller then waits on its
  promise (\<^verbatim>\<open>waitPromise.valid()\<close>); \<open>finishArbitration\<close> tells which waiting
  operation's promise it fulfils, if any.
\<close>

definition startArbitration :: "ArbitrationParticipant \<Rightarrow> nat \<Rightarrow> ArbitrationParticipant \<times> bool" where
  "startArbitration p oper =
     (let p1 = p\<lparr>numRequests := numRequests p + 1\<rparr>
      in if runningOp p1 \<noteq> None then (p1\<lparr>waitOps := waitOps p1 @ [oper]\<rparr>, True)
         else (p1\<lparr>runningOp := Some oper\<rparr>, False))"

definition finishArbitration ::
  "ArbitrationParticipant \<Rightarrow> nat \<Rightarrow> error + (ArbitrationParticipant \<times> nat option)" where
  "finishArbitration p oper =
     (if runningOp p \<noteq> Some oper then Inl VeloxCheckFailure
      else case waitOps p of
             [] \<Rightarrow> Inr (p\<lparr>runningOp := None\<rparr>, None)
           | w # ws \<Rightarrow> Inr (p\<lparr>runningOp := Some w, waitOps := ws\<rparr>, Some w))"

text \<open>
  A history of calls on one participant, in the order in which they take
  \<^verbatim>\<open>stateLock_\<close>. \<open>arbitrationCalls\<close> runs it and returns the final participant, the
  operations that had to wait, in the order of their \<^verbatim>\<open>startArbitration\<close>, and the
  operations that were resumed, in the order in which their promises were fulfilled.
\<close>

datatype call = Start nat | Finish nat

fun arbitrationCalls ::
  "ArbitrationParticipant \<Rightarrow> call list \<Rightarrow> error + (ArbitrationParticipant \<times> nat list \<times> nat list)" where
  "arbitrationCalls p [] = Inr (p, [], [])"
| "arbitrationCalls p (Start a # cs) =
     (case startArbitration p a of
        (p1, waits) \<Rightarrow>
          (case arbitrationCalls p1 cs of
             Inl e \<Rightarrow> Inl e
           | Inr (p2, blocked, resumed) \<Rightarrow>
               Inr (p2, (if waits then [a] else []) @ blocked, resumed)))"
| "arbitrationCalls p (Finish a # cs) =
     (case finishArbitration p a of
        Inl e \<Rightarrow> Inl e
      | Inr (p1, r) \<Rightarrow>
          (case arbitrationCalls p1 cs of
             Inl e \<Rightarrow> Inl e
           | Inr (p2, blocked, resumed) \<Rightarrow>
               Inr (p2, blocked, (case r of None \<Rightarrow> [] | Some w \<Rightarrow> [w]) @ resumed)))"

definition grow ::
  "Env \<Rightarrow> ArbitrationParticipant \<Rightarrow> u64 \<Rightarrow> u64 \<Rightarrow> ArbitrationParticipant \<times> (error + bool)" where
  "grow env p bytes reservationBytes =
     (let p1 = p\<lparr>numGrows := numGrows p + 1\<rparr>
      in case poolGrow env (pool p1) bytes reservationBytes of
           (mp, Inl e) \<Rightarrow> (p1\<lparr>pool := mp\<rparr>, Inl e)
         | (mp, Inr success) \<Rightarrow>
             (if success then (p1\<lparr>pool := mp, growBytes := growBytes p1 + bytes\<rparr>, Inr True)
              else (p1\<lparr>pool := mp\<rparr>, Inr False)))"

definition shrinkLocked ::
  "Env \<Rightarrow> ArbitrationParticipant \<Rightarrow> bool \<Rightarrow> ArbitrationParticipant \<times> (error + u64)" where
  "shrinkLocked env p reclaimAll =
     (let p1 = p\<lparr>numShrinks := numShrinks p + 1\<rparr>
      in if reclaimAll
         then (case poolShrink env (pool p1) 0 of
                 (mp, Inl e) \<Rightarrow> (p1\<lparr>pool := mp\<rparr>, Inl e)
               | (mp, Inr bytes) \<Rightarrow>
                   (p1\<lparr>pool := mp, reclaimedBytes := reclaimedBytes p1 + bytes\<rparr>, Inr bytes))
         else (let reclaimTargetBytes = reclaimableFreeCapacity env p1
               in if reclaimTargetBytes > 0
                  then (case poolShrink env (pool p1) reclaimTargetBytes of
                          (mp, Inl e) \<Rightarrow> (p1\<lparr>pool := mp\<rparr>, Inl e)
                        | (mp, Inr bytes) \<Rightarrow>
                            (p1\<lparr>pool := mp, reclaimedBytes := reclaimedBytes p1 + bytes\<rparr>,
                             Inr bytes))
                  else (p1\<lparr>reclaimedBytes := reclaimedBytes p1 + 0\<rparr>, Inr 0)))"

definition shrink ::
  "Env \<Rightarrow> ArbitrationParticipant \<Rightarrow> bool \<Rightarrow> ArbitrationParticipant \<times> (error + u64)" where
  "shrink env p reclaimAll = shrinkLocked env p reclaimAll"

text \<open>
  \<^verbatim>\<open>abortLocked\<close> is \<^verbatim>\<open>noexcept\<close>. An exception of \<^verbatim>\<open>pool_->abort\<close> is caught and
  logged; a failure of \<^verbatim>\<open>VELOX_CHECK(pool_->aborted())\<close> or an exception of the
  final \<^verbatim>\<open>shrinkLocked(true)\<close> is not caught and terminates.
\<close>

definition abortLocked ::
  "Env \<Rightarrow> ArbitrationParticipant \<Rightarrow> error \<Rightarrow> (ArbitrationParticipant \<times> u64) outcome" where
  "abortLocked env p err =
     (if aborted p then Returns (p, 0)
      else let p1 = p\<lparr>aborted := True\<rparr>;
               p2 = p1\<lparr>pool := fst (poolAbort env (pool p1) err)\<rparr>
           in if \<not> pool_aborted (pool p2) then Terminates
              else case shrinkLocked env p2 True of
                     (p3, Inl e) \<Rightarrow> Terminates
                   | (p3, Inr bytes) \<Rightarrow> Returns (p3, bytes))"

text \<open>\<^verbatim>\<open>abort\<close> takes \<^verbatim>\<open>reclaimMutex_\<close> without a time limit and calls \<^verbatim>\<open>abortLocked\<close>.\<close>

definition abort ::
  "Env \<Rightarrow> ArbitrationParticipant \<Rightarrow> error \<Rightarrow> (ArbitrationParticipant \<times> u64) outcome" where
  "abort env p err = abortLocked env p err"

text \<open>
  The \<^verbatim>\<open>try\<close> block of \<^verbatim>\<open>reclaim\<close>: the timed lock, the counter, the pool's reclaim
  and \<^verbatim>\<open>shrink(false)\<close>. It yields the participant and the caller's stats as the
  block leaves them, and either \<^verbatim>\<open>reclaimedCapacity\<close> or the exception that
  leaves the block.
\<close>

definition reclaimAttempt ::
  "Env \<Rightarrow> ArbitrationParticipant \<Rightarrow> u64 \<Rightarrow> u64 \<Rightarrow> ReclaimerStats
     \<Rightarrow> ArbitrationParticipant \<times> ReclaimerStats \<times> (error + u64)" where
  "reclaimAttempt env p targetBytes maxWaitTimeNs stats =
     (if \<not> tryLockFor env maxWaitTimeNs then (p, stats, Inl MemArbitrationTimeout)
      else let p1 = p\<lparr>numReclaims := numReclaims p + 1\<rparr>
           in case poolReclaim env (pool p1) targetBytes (maxWaitTimeNs div 1000000) stats of
                (mp, stats1, Inl e) \<Rightarrow> (p1\<lparr>pool := mp\<rparr>, stats1, Inl e)
              | (mp, stats1, Inr bytes) \<Rightarrow>
                  (case shrink env (p1\<lparr>pool := mp\<rparr>) False of
                     (p2, r) \<Rightarrow> (p2, stats1, r)))"

text \<open>The target that \<^verbatim>\<open>reclaim\<close> works with, after its first two statements.\<close>

definition effectiveTarget :: "Env \<Rightarrow> ArbitrationParticipant \<Rightarrow> u64 \<Rightarrow> u64" where
  "effectiveTarget env p targetBytes =
     (let minReclaim = max (minReclaimBytes (config p))
                           (scale env (capacity (pool p)) (minReclaimPct (config p)))
      in max targetBytes minReclaim)"

definition reclaim ::
  "Env \<Rightarrow> ArbitrationParticipant \<Rightarrow> u64 \<Rightarrow> u64 \<Rightarrow> ReclaimerStats
     \<Rightarrow> (ArbitrationParticipant \<times> ReclaimerStats \<times> u64) outcome" where
  "reclaim env p targetBytes maxWaitTimeNs stats =
     (let target = effectiveTarget env p targetBytes
      in if target = 0 then Returns (p, stats, 0)
         else case reclaimAttempt env p target maxWaitTimeNs stats of
                (p1, stats1, Inr reclaimedCapacity) \<Rightarrow> Returns (p1, stats1, reclaimedCapacity)
              | (p1, stats1, Inl e) \<Rightarrow>
                  (case abortLocked env p1 e of
                     Returns (p2, reclaimedCapacity) \<Rightarrow> Returns (p2, stats1, reclaimedCapacity)
                   | Terminates \<Rightarrow> Terminates))"

section \<open>Hash join build operator (HashBuild.cpp)\<close>

datatype State = kRunning | kYield | kWaitForBuild | kWaitForProbe | kFinish

text \<open>
  What the operator asks its plan node: \<^verbatim>\<open>isAntiJoin(joinType_)\<close>,
  \<^verbatim>\<open>isRightJoin(joinType_)\<close>, \<^verbatim>\<open>isFullJoin(joinType_)\<close>,
  \<^verbatim>\<open>isRightSemiProjectJoin(joinType_)\<close>, \<^verbatim>\<open>isLeftNullAwareJoinWithFilter(joinNode_)\<close>
  and whether \<^verbatim>\<open>joinNode_->filter()\<close> is set.
\<close>

record HashJoinNode =
  isAntiJoin :: bool
  isRightJoin :: bool
  isFullJoin :: bool
  isRightSemiProjectJoin :: bool
  isLeftNullAwareJoinWithFilter :: bool
  hasFilter :: bool

text \<open>A build-side row: its join keys and its dependent columns; \<open>None\<close> is a null.\<close>

record Row =
  keys :: "int option list"
  deps :: "int option list"

record HashBuildSpiller =
  spillTriggered :: bool
  finalized :: bool
  spilledRows :: "Row list"

text \<open>
  The fields of the operator that the modelled functions touch. \<open>table\<close> is the
  content of the row container of \<^verbatim>\<open>table_\<close> and \<open>spiller\<close> is \<^verbatim>\<open>spiller_\<close>, each
  \<open>None\<close> when the pointer is empty; \<open>canSpill\<close> is the value of \<^verbatim>\<open>canSpill()\<close>,
  \<open>inputFromSpill\<close> that of \<^verbatim>\<open>isInputFromSpill()\<close>; \<open>poolReleases\<close> counts the calls
  of \<^verbatim>\<open>pool()->release()\<close>.
\<close>

record HashBuild =
  state :: State
  joinNode :: HashJoinNode
  nullAware :: bool
  filterPropagatesNulls :: bool
  keyFilterChannels :: "nat list"
  dependentFilterChannels :: "nat list"
  joinHasNullKeys :: bool
  noMoreInput_flag :: bool
  table :: "Row list option"
  spiller :: "HashBuildSpiller option"
  nonReclaimableSection :: bool
  stateCleared :: bool
  exceededMaxSpillLevelLimit :: bool
  canSpill :: bool
  inputFromSpill :: bool
  numNullKeys :: nat
  poolReleases :: nat

text \<open>
  The join bridge, as far as the build side writes it: the mark set by
  \<^verbatim>\<open>setAntiJoinHasNullKeys()\<close> and the arguments of \<^verbatim>\<open>setHashTable\<close>.
\<close>

record HashJoinBridge =
  antiJoinHasNullKeys :: bool
  bridgeTable :: "Row list option"
  bridgeSpillPartitions :: "Row list"
  bridgeHasNullKeys :: bool

text \<open>
  One build operator among the build operators of the other drivers of its
  pipeline, and the bridge they share.
\<close>

record BuildWorld =
  self :: HashBuild
  peers :: "HashBuild list"
  bridge :: HashJoinBridge

text \<open>
  What lies outside the operator: \<open>allPeersFinished\<close> is the answer of
  \<^verbatim>\<open>Task::allPeersFinished\<close> (true for the last driver to arrive, which then
  receives the other drivers as \<open>peers\<close>); \<open>ensureInputFits\<close> and
  \<open>ensureTableFits\<close> are the two memory reservations against the pool, during
  which the arbitrator may run; \<open>postHashBuildProcess\<close> is the operator's life
  after the hand-off of its table (waiting for the probe side, restoring spilled
  partitions).
\<close>

record BuildEnv =
  allPeersFinished :: bool
  ensureInputFits :: "BuildWorld \<Rightarrow> Row list \<Rightarrow> error + BuildWorld"
  ensureTableFits :: "BuildWorld \<Rightarrow> error + BuildWorld"
  postHashBuildProcess :: "BuildWorld \<Rightarrow> error + BuildWorld"

definition isShortCircuitJoin :: "HashBuild \<Rightarrow> bool" where
  "isShortCircuitJoin hb \<longleftrightarrow>
     isAntiJoin (joinNode hb) \<and> nullAware hb \<and> \<not> hasFilter (joinNode hb)"

definition hasNullKey :: "Row \<Rightarrow> bool" where
  "hasNullKey r = list_ex (\<lambda>k. k = None) (keys r)"

definition nullAt :: "int option list \<Rightarrow> nat \<Rightarrow> bool" where
  "nullAt col i = (i < length col \<and> col ! i = None)"

text \<open>
  \<^verbatim>\<open>removeInputRowsForAntiJoinFilter\<close>: a row stays selected when none of the
  columns the filter reads is null in it.
\<close>

definition removeInputRowsForAntiJoinFilter :: "HashBuild \<Rightarrow> Row list \<Rightarrow> Row list" where
  "removeInputRowsForAntiJoinFilter hb activeRows =
     filter (\<lambda>r. \<not> list_ex (nullAt (keys r)) (keyFilterChannels hb) \<and>
                 \<not> list_ex (nullAt (deps r)) (dependentFilterChannels hb)) activeRows"

text \<open>
  The end of \<^verbatim>\<open>addInput\<close>: \<^verbatim>\<open>spillInput\<close> sends every selected row to the spiller
  once spilling has been triggered (\<^verbatim>\<open>HashBuildSpiller::spill\<close> checks that the
  spiller is not finalized), and the rows still selected are stored in the table.
\<close>

definition storeRows :: "HashBuild \<Rightarrow> Row list \<Rightarrow> error + HashBuild" where
  "storeRows hb activeRows =
     (case spiller hb of
        Some sp \<Rightarrow>
          (if canSpill hb \<and> spillTriggered sp \<and> activeRows \<noteq> []
           then (if finalized sp then Inl VeloxCheckFailure
                 else Inr (hb\<lparr>spiller := Some (sp\<lparr>spilledRows := spilledRows sp @ activeRows\<rparr>)\<rparr>))
           else if activeRows = [] then Inr hb
           else (case table hb of
                   None \<Rightarrow> Inl NullPointer
                 | Some t \<Rightarrow> Inr (hb\<lparr>table := Some (t @ activeRows)\<rparr>)))
      | None \<Rightarrow>
          (if activeRows = [] then Inr hb
           else (case table hb of
                   None \<Rightarrow> Inl NullPointer
                 | Some t \<Rightarrow> Inr (hb\<lparr>table := Some (t @ activeRows)\<rparr>))))"

text \<open>
  The first loop of \<^verbatim>\<open>finishHashBuild\<close> over the peers, in their order. The
  first argument tells whether the join is a null-aware anti join without filter,
  the last one carries \<^verbatim>\<open>joinHasNullKeys_\<close> of the running operator.
\<close>

datatype scan = ScanNullKeys | ScanFailed | ScanDone bool

fun scanPeers :: "bool \<Rightarrow> HashBuild list \<Rightarrow> bool \<Rightarrow> scan" where
  "scanPeers shortCircuit [] nk = ScanDone nk"
| "scanPeers shortCircuit (b # bs) nk =
     (if joinHasNullKeys b \<and> shortCircuit then ScanNullKeys
      else if stateCleared b then ScanFailed
      else scanPeers shortCircuit bs (nk \<or> joinHasNullKeys b))"

text \<open>
  The second loop: every peer gives up its table and its spiller, whose spilled
  rows join the spill partitions. It returns the peers as they are left, their
  tables and the spilled rows.
\<close>

fun takePeerTables :: "HashBuild list \<Rightarrow> error + (HashBuild list \<times> Row list list \<times> Row list)" where
  "takePeerTables [] = Inr ([], [], [])"
| "takePeerTables (b # bs) =
     (if stateCleared b then Inl VeloxCheckFailure
      else case table b of
             None \<Rightarrow> Inl VeloxCheckFailure
           | Some t \<Rightarrow>
               (case takePeerTables bs of
                  Inl e \<Rightarrow> Inl e
                | Inr (bs', tables, spilled) \<Rightarrow>
                    Inr (b\<lparr>stateCleared := True, table := None, spiller := None\<rparr> # bs',
                         t # tables,
                         (case spiller b of None \<Rightarrow> [] | Some sp \<Rightarrow> spilledRows sp) @ spilled)))"

text \<open>
  The merge of \<^verbatim>\<open>finishHashBuild\<close>, from the second loop to the hand-off:
  \<^verbatim>\<open>prepareJoinTable\<close> adds the peers' tables to the operator's own and
  \<^verbatim>\<open>setHashTable\<close> gives the result to the bridge. The spiller's
  \<^verbatim>\<open>finishSpill\<close> belongs to the spiller's own code; it is taken to hand the
  spilled rows to the partition set and to leave the spiller finalized.
\<close>

definition mergeTables :: "BuildWorld \<Rightarrow> error + BuildWorld" where
  "mergeTables w =
     (case takePeerTables (peers w) of
        Inl e \<Rightarrow> Inl e
      | Inr (peers', otherTables, spilled) \<Rightarrow>
          (let hb = self w;
               ownSpilled = (case spiller hb of None \<Rightarrow> [] | Some sp \<Rightarrow> spilledRows sp);
               hb1 = hb\<lparr>spiller := map_option (\<lambda>sp. sp\<lparr>finalized := True\<rparr>) (spiller hb)\<rparr>
           in case table hb1 of
                None \<Rightarrow> Inl NullPointer
              | Some t \<Rightarrow>
                  (if canSpill hb1 \<and> \<not> exceededMaxSpillLevelLimit hb1 \<and> spiller hb1 = None
                   then Inl VeloxCheckFailure
                   else Inr (w\<lparr>self := hb1\<lparr>table := None,
                                            stateCleared := (canSpill hb1 \<or> stateCleared hb1),
                                            poolReleases := poolReleases hb1 + 1\<rparr>,
                               peers := peers',
                               bridge := (bridge w)\<lparr>bridgeTable := Some (t @ concat otherTables),
                                                   bridgeSpillPartitions := spilled @ ownSpilled,
                                                   bridgeHasNullKeys := joinHasNullKeys hb1\<rparr>\<rparr>))))"

definition finishHashBuild :: "BuildEnv \<Rightarrow> BuildWorld \<Rightarrow> error + (BuildWorld \<times> bool)" where
  "finishHashBuild env w =
     (if state (self w) \<noteq> kRunning then Inl VeloxCheckFailure
      else let hb = (self w)\<lparr>poolReleases := poolReleases (self w) + 1\<rparr>
           in if \<not> allPeersFinished env
              then Inr (w\<lparr>self := hb\<lparr>state := kWaitForBuild\<rparr>\<rparr>, False)
              else if joinHasNullKeys hb \<and> isAntiJoin (joinNode hb) \<and> nullAware hb \<and>
                      \<not> hasFilter (joinNode hb)
              then Inr (w\<lparr>self := hb, bridge := (bridge w)\<lparr>antiJoinHasNullKeys := True\<rparr>\<rparr>, True)
              else (case scanPeers (isShortCircuitJoin hb) (peers w) (joinHasNullKeys hb) of
                      ScanNullKeys \<Rightarrow>
                        Inr (w\<lparr>self := hb\<lparr>joinHasNullKeys := True\<rparr>,
                               bridge := (bridge w)\<lparr>antiJoinHasNullKeys := True\<rparr>\<rparr>, True)
                    | ScanFailed \<Rightarrow> Inl VeloxCheckFailure
                    | ScanDone nk \<Rightarrow>
                        (case ensureTableFits env (w\<lparr>self := hb\<lparr>joinHasNullKeys := nk\<rparr>\<rparr>) of
                           Inl e \<Rightarrow> Inl e
                         | Inr w1 \<Rightarrow>
                             (case mergeTables w1 of
                                Inl e \<Rightarrow> Inl e
                              | Inr w2 \<Rightarrow> Inr (w2, True)))))"

definition noMoreInputInternal :: "BuildEnv \<Rightarrow> BuildWorld \<Rightarrow> error + BuildWorld" where
  "noMoreInputInternal env w =
     (case finishHashBuild env w of
        Inl e \<Rightarrow> Inl e
      | Inr (w1, finished) \<Rightarrow> if \<not> finished then Inr w1 else postHashBuildProcess env w1)"

definition noMoreInput :: "BuildEnv \<Rightarrow> BuildWorld \<Rightarrow> error + BuildWorld" where
  "noMoreInput env w =
     (if state (self w) \<noteq> kRunning then Inl VeloxCheckFailure
      else if noMoreInput_flag (self w) then Inr w
      else noMoreInputInternal env (w\<lparr>self := (self w)\<lparr>noMoreInput_flag := True\<rparr>\<rparr>))"

text \<open>
  The middle of \<^verbatim>\<open>addInput\<close>, between the memory reservation and the choice of what
  to do with the batch. \<open>countNullKeys\<close> is the statistics update for input that
  does not come from a spill. \<open>dropsNullKeyRows\<close> is the test that selects the
  branch calling \<^verbatim>\<open>deselectRowsWithNulls\<close>; \<open>selectRows\<close> gives the rows that
  \<^verbatim>\<open>activeRows_\<close> then selects; \<open>noteNullKeys\<close> sets \<^verbatim>\<open>joinHasNullKeys_\<close>, in that
  branch when rows were deselected, in the other one when a key column holds a
  null.
\<close>

definition countNullKeys :: "HashBuild \<Rightarrow> Row list \<Rightarrow> HashBuild" where
  "countNullKeys hb input =
     (if \<not> inputFromSpill hb
      then hb\<lparr>numNullKeys := numNullKeys hb + length (filter hasNullKey input)\<rparr>
      else hb)"

definition dropsNullKeyRows :: "HashBuild \<Rightarrow> bool" where
  "dropsNullKeyRows hb \<longleftrightarrow>
     \<not> isRightJoin (joinNode hb) \<and> \<not> isFullJoin (joinNode hb) \<and>
     \<not> isRightSemiProjectJoin (joinNode hb) \<and> \<not> isLeftNullAwareJoinWithFilter (joinNode hb)"

definition selectRows :: "HashBuild \<Rightarrow> Row list \<Rightarrow> Row list" where
  "selectRows hb input =
     (if dropsNullKeyRows hb then filter (\<lambda>r. \<not> hasNullKey r) input else input)"

definition noteNullKeys :: "HashBuild \<Rightarrow> Row list \<Rightarrow> HashBuild" where
  "noteNullKeys hb input =
     (if dropsNullKeyRows hb
      then (if nullAware hb \<and> \<not> joinHasNullKeys hb \<and>
               length (selectRows hb input) < length input
            then hb\<lparr>joinHasNullKeys := True\<rparr> else hb)
      else (if nullAware hb \<and> \<not> joinHasNullKeys hb \<and> list_ex hasNullKey input
            then hb\<lparr>joinHasNullKeys := True\<rparr> else hb))"

definition addInput :: "BuildEnv \<Rightarrow> BuildWorld \<Rightarrow> Row list \<Rightarrow> error + BuildWorld" where
  "addInput env w input =
     (if state (self w) \<noteq> kRunning then Inl VeloxCheckFailure
      else case ensureInputFits env w input of
             Inl e \<Rightarrow> Inl e
           | Inr w1 \<Rightarrow>
               (let hb1 = countNullKeys (self w1) input;
                    activeRows = selectRows hb1 input;
                    hb2 = noteNullKeys hb1 input
                in if isAntiJoin (joinNode hb2) \<and> hasFilter (joinNode hb2)
                   then (case storeRows hb2 (if filterPropagatesNulls hb2
                                             then removeInputRowsForAntiJoinFilter hb2 activeRows
                                             else activeRows) of
                           Inl e \<Rightarrow> Inl e
                         | Inr hb3 \<Rightarrow> Inr (w1\<lparr>self := hb3\<rparr>))
                   else if isAntiJoin (joinNode hb2) \<and> nullAware hb2 \<and> joinHasNullKeys hb2
                   then noMoreInput env (w1\<lparr>self := hb2\<rparr>)
                   else (case storeRows hb2 activeRows of
                           Inl e \<Rightarrow> Inl e
                         | Inr hb3 \<Rightarrow> Inr (w1\<lparr>self := hb3\<rparr>))))"







section \<open>Concrete inputs\<close>

text \<open>
  The product of the doubles where it is exact (small capacities, dyadic ratios);
  used to run the definitions on concrete inputs.
\<close>

definition exactScale :: "u64 \<Rightarrow> real \<Rightarrow> u64" where
  "exactScale c r = word_of_int \<lfloor>real (unat c) * r\<rfloor>"

text \<open>
  A pool that does what it is asked: reclaim and shrink free nothing, grow
  succeeds, abort marks the pool aborted; the reclaim lock is free.
\<close>

definition quietEnv :: Env where
  "quietEnv =
     \<lparr>scale = exactScale, tryLockFor = (\<lambda>ns. True),
      poolReclaim = (\<lambda>mp target waitMs st. (mp, st, Inr 0)),
      poolShrink = (\<lambda>mp target. (mp, Inr 0)),
      poolGrow = (\<lambda>mp bytes reservation. (mp, Inr True)),
      poolAbort = (\<lambda>mp e. (mp\<lparr>pool_aborted := True\<rparr>, None))\<rparr>"

text \<open>
  A pool whose reclaim callback throws, and whose \<^verbatim>\<open>shrink(0)\<close> gives back the
  whole capacity.
\<close>

definition throwingEnv :: Env where
  "throwingEnv =
     \<lparr>scale = exactScale, tryLockFor = (\<lambda>ns. True),
      poolReclaim = (\<lambda>mp target waitMs st. (mp, st, Inl (PoolError 7))),
      poolShrink = (\<lambda>mp target. (mp\<lparr>poolCapacity := 0, freeBytes := 0\<rparr>, Inr (capacity mp))),
      poolGrow = (\<lambda>mp bytes reservation. (mp, Inr True)),
      poolAbort = (\<lambda>mp e. (mp\<lparr>pool_aborted := True\<rparr>, None))\<rparr>"

definition zeroConfig :: Config where
  "zeroConfig =
     \<lparr>initCapacity = 0, minCapacity = 0, fastExponentialGrowthCapacityLimit = 0,
      slowCapacityGrowRatio = 0, minFreeCapacity = 0, minFreeCapacityRatio = 0,
      minReclaimBytes = 0, minReclaimPct = 0\<rparr>"

definition mkPool :: "63 word \<Rightarrow> u64 \<Rightarrow> u64 \<Rightarrow> u64 \<Rightarrow> u64 option \<Rightarrow> MemoryPool" where
  "mkPool cap free reserved peak reclaimable =
     \<lparr>poolCapacity = cap, freeBytes = free, reservedBytes = reserved, peakBytes = peak,
      reclaimableBytes = reclaimable, pool_aborted = False, pool_maxCapacity = 100\<rparr>"

definition mkParticipant :: "Config \<Rightarrow> MemoryPool \<Rightarrow> ArbitrationParticipant" where
  "mkParticipant c mp =
     \<lparr>config = c, pool = mp, maxCapacity = pool_maxCapacity mp, runningOp = None,
      waitOps = [], aborted = False, numRequests = 0, numReclaims = 0, numShrinks = 0,
      numGrows = 0, reclaimedBytes = 0, growBytes = 0\<rparr>"

text \<open>
  An active pool of capacity 100 with 30 bytes free, under
  \<^verbatim>\<open>minFreeCapacity = 10\<close> and \<^verbatim>\<open>minFreeCapacityRatio = 0.5\<close>.
\<close>

definition shrinkExample :: ArbitrationParticipant where
  "shrinkExample =
     mkParticipant (zeroConfig\<lparr>minFreeCapacity := 10, minFreeCapacityRatio := 1 / 2\<rparr>)
       (mkPool 100 30 70 70 None)"

text \<open>
  The claimed value of \<^verbatim>\<open>maxShrinkCapacity\<close>, in the words of the specification:
  the free bytes above \<open>max(minFreeCapacity, capacity \<times> minFreeCapacityRatio)\<close>.
\<close>

definition spec_maxShrinkCapacity :: "Env \<Rightarrow> ArbitrationParticipant \<Rightarrow> u64" where
  "spec_maxShrinkCapacity env p =
     (if inactivePool p \<or> minFreeCapacity (config p) = 0 then freeBytes (pool p)
      else let floor = max (minFreeCapacity (config p))
                           (scale env (capacity (pool p)) (minFreeCapacityRatio (config p)))
           in if freeBytes (pool p) > floor then freeBytes (pool p) - floor else 0)"

text \<open>An inactive pool of 64MB under \<^verbatim>\<open>minCapacity = 16MB\<close>.\<close>

definition inactiveExample :: ArbitrationParticipant where
  "inactiveExample =
     mkParticipant (zeroConfig\<lparr>minCapacity := 16777216\<rparr>)
       ((mkPool 67108864 67108864 0 1 None)\<lparr>pool_maxCapacity := 67108864\<rparr>)"

text \<open>A pool of capacity 50 out of 100, with no growth policy.\<close>

definition growExample :: ArbitrationParticipant where
  "growExample = mkParticipant zeroConfig (mkPool 50 10 40 40 None)"

text \<open>
  A pool of capacity 60 out of 100 under \<^verbatim>\<open>minCapacity = 70\<close>, with a growth policy
  whose fast limit of 200 lets the capacity double, and with one whose fast limit
  of 100 does not.
\<close>

definition fastGrowExample :: ArbitrationParticipant where
  "fastGrowExample =
     mkParticipant
       (zeroConfig\<lparr>minCapacity := 70, fastExponentialGrowthCapacityLimit := 200,
                    slowCapacityGrowRatio := 1 / 2\<rparr>)
       (mkPool 60 10 50 50 None)"

definition slowGrowExample :: ArbitrationParticipant where
  "slowGrowExample =
     mkParticipant
       (zeroConfig\<lparr>minCapacity := 70, fastExponentialGrowthCapacityLimit := 100,
                    slowCapacityGrowRatio := 1 / 2\<rparr>)
       (mkPool 60 10 50 50 None)"

text \<open>
  A pool whose reclaim callback returns and whose \<^verbatim>\<open>shrink\<close> always throws.
\<close>

definition shrinkThrowsEnv :: Env where
  "shrinkThrowsEnv =
     \<lparr>scale = exactScale, tryLockFor = (\<lambda>ns. True),
      poolReclaim = (\<lambda>mp target waitMs st. (mp, st, Inr 0)),
      poolShrink = (\<lambda>mp target. (mp, Inl (PoolError 9))),
      poolGrow = (\<lambda>mp bytes reservation. (mp, Inr True)),
      poolAbort = (\<lambda>mp e. (mp\<lparr>pool_aborted := True\<rparr>, None))\<rparr>"

text \<open>A participant with nothing to reclaim and no minimum.\<close>

definition idleExample :: ArbitrationParticipant where
  "idleExample = mkParticipant zeroConfig (mkPool 0 0 0 0 None)"

text \<open>A participant that has been aborted.\<close>

definition abortedExample :: ArbitrationParticipant where
  "abortedExample = (mkParticipant zeroConfig (mkPool 50 10 40 40 None))\<lparr>aborted := True\<rparr>"

text \<open>A participant on which operation 1 is running and none waits.\<close>

definition busyExample :: ArbitrationParticipant where
  "busyExample = (mkParticipant zeroConfig (mkPool 50 10 40 40 None))\<lparr>runningOp := Some 1\<rparr>"


text \<open>
  A running build operator of a null-aware anti join without filter, with an empty
  table and a fresh spiller.
\<close>

definition antiBuild :: HashBuild where
  "antiBuild =
     \<lparr>state = kRunning,
      joinNode = \<lparr>isAntiJoin = True, isRightJoin = False, isFullJoin = False,
                  isRightSemiProjectJoin = False, isLeftNullAwareJoinWithFilter = False,
                  hasFilter = False\<rparr>,
      nullAware = True, filterPropagatesNulls = False, keyFilterChannels = [],
      dependentFilterChannels = [], joinHasNullKeys = False, noMoreInput_flag = False,
      table = Some [],
      spiller = Some \<lparr>spillTriggered = False, finalized = False, spilledRows = []\<rparr>,
      nonReclaimableSection = False, stateCleared = False,
      exceededMaxSpillLevelLimit = False, canSpill = True, inputFromSpill = False,
      numNullKeys = 0, poolReleases = 0\<rparr>"

definition nullRow :: Row where
  "nullRow = \<lparr>keys = [None], deps = [Some 1]\<rparr>"

definition plainRow :: Row where
  "plainRow = \<lparr>keys = [Some 7], deps = [Some 1]\<rparr>"

text \<open>A peer that waits at the barrier with one row in its table.\<close>

definition waitingPeer :: HashBuild where
  "waitingPeer = antiBuild\<lparr>state := kWaitForBuild, table := Some [plainRow]\<rparr>"

definition emptyBridge :: HashJoinBridge where
  "emptyBridge =
     \<lparr>antiJoinHasNullKeys = False, bridgeTable = None, bridgeSpillPartitions = [],
      bridgeHasNullKeys = False\<rparr>"

text \<open>
  The environment of the last driver to finish: the reservations change nothing
  and nothing follows the hand-off.
\<close>

definition lastDriverEnv :: BuildEnv where
  "lastDriverEnv =
     \<lparr>allPeersFinished = True, ensureInputFits = (\<lambda>w input. Inr w),
      ensureTableFits = (\<lambda>w. Inr w), postHashBuildProcess = (\<lambda>w. Inr w)\<rparr>"

text \<open>The running operator with one peer at the barrier.\<close>

definition antiWorld :: BuildWorld where
  "antiWorld = \<lparr>self = antiBuild, peers = [waitingPeer], bridge = emptyBridge\<rparr>"

text \<open>The same, where the peer has seen a null key.\<close>

definition nullPeerWorld :: BuildWorld where
  "nullPeerWorld =
     \<lparr>self = antiBuild, peers = [waitingPeer\<lparr>joinHasNullKeys := True\<rparr>], bridge = emptyBridge\<rparr>"

text \<open>
  The environment of a driver that is not the last to finish, and a world whose
  running operator has seen a null key; a world whose first peer has been closed
  and whose second peer has seen a null key.
\<close>

definition notLastEnv :: BuildEnv where
  "notLastEnv = lastDriverEnv\<lparr>allPeersFinished := False\<rparr>"

definition nullKeyWorld :: BuildWorld where
  "nullKeyWorld = antiWorld\<lparr>self := antiBuild\<lparr>joinHasNullKeys := True\<rparr>\<rparr>"

definition closedPeerWorld :: BuildWorld where
  "closedPeerWorld =
     \<lparr>self = antiBuild,
      peers = [waitingPeer\<lparr>stateCleared := True\<rparr>, waitingPeer\<lparr>joinHasNullKeys := True\<rparr>],
      bridge = emptyBridge\<rparr>"




definition noStats :: ReclaimerStats where
  "noStats = \<lparr>numNonReclaimableAttempts = 0\<rparr>"

section \<open>Properties of the arbitration participant\<close>

lemmas example_defs = quietEnv_def throwingEnv_def zeroConfig_def mkPool_def mkParticipant_def
  exactScale_def capacity_def

lemma maxShrinkCapacity_unfold:
  "maxShrinkCapacity env p =
     (if minFreeCapacity (config p) \<noteq> 0 \<and> \<not> inactivePool p
      then if freeBytes (pool p)
              \<le> min (scale env (capacity (pool p)) (minFreeCapacityRatio (config p)))
                    (minFreeCapacity (config p))
           then 0
           else freeBytes (pool p)
                - min (scale env (capacity (pool p)) (minFreeCapacityRatio (config p)))
                      (minFreeCapacity (config p))
      else freeBytes (pool p))"
  by (simp add: maxShrinkCapacity_def Let_def)

text \<open>
  Claim C1, as stated, takes the larger of \<^verbatim>\<open>minFreeCapacity\<close> and
  \<^verbatim>\<open>capacity \<times> minFreeCapacityRatio\<close> as the floor of free bytes that shrinking
  keeps. The code takes the smaller one (\<^verbatim>\<open>std::min\<close>): with capacity 100,
  30 bytes free, \<^verbatim>\<open>minFreeCapacity = 10\<close> and ratio 0.5 the code may shrink by
  20 bytes, where the claimed floor of 50 would allow none.
\<close>

theorem maxShrinkCapacity_spec_counterexample:
  "\<not> inactivePool shrinkExample \<and> minFreeCapacity (config shrinkExample) \<noteq> 0 \<and>
   maxShrinkCapacity quietEnv shrinkExample = 20 \<and>
   spec_maxShrinkCapacity quietEnv shrinkExample = 0"
  by (simp add: shrinkExample_def example_defs inactivePool_def maxShrinkCapacity_def
      spec_maxShrinkCapacity_def)

text \<open>
  Claim C1, amended: when the pool is not inactive and \<^verbatim>\<open>minFreeCapacity\<close> is not
  zero, \<^verbatim>\<open>maxShrinkCapacity()\<close> is the pool's free bytes minus the floor
  \<open>min(minFreeCapacity, capacity \<times> minFreeCapacityRatio)\<close> when the free bytes exceed
  that floor, and 0 otherwise; when the pool is inactive or \<^verbatim>\<open>minFreeCapacity\<close> is
  0, it is all of the free bytes.
\<close>

theorem maxShrinkCapacity_value:
  "maxShrinkCapacity env p =
     (if minFreeCapacity (config p) = 0 \<or> inactivePool p then freeBytes (pool p)
      else if min (minFreeCapacity (config p))
                  (scale env (capacity (pool p)) (minFreeCapacityRatio (config p)))
              < freeBytes (pool p)
      then freeBytes (pool p)
           - min (minFreeCapacity (config p))
                 (scale env (capacity (pool p)) (minFreeCapacityRatio (config p)))
      else 0)"
proof -
  define m where "m = min (scale env (capacity (pool p)) (minFreeCapacityRatio (config p)))
                          (minFreeCapacity (config p))"
  have m: "min (minFreeCapacity (config p))
               (scale env (capacity (pool p)) (minFreeCapacityRatio (config p))) = m"
    by (simp add: m_def min.commute)
  have "maxShrinkCapacity env p =
          (if minFreeCapacity (config p) \<noteq> 0 \<and> \<not> inactivePool p
           then if freeBytes (pool p) \<le> m then 0 else freeBytes (pool p) - m
           else freeBytes (pool p))"
    by (simp add: maxShrinkCapacity_unfold m_def)
  also have "\<dots> = (if minFreeCapacity (config p) = 0 \<or> inactivePool p then freeBytes (pool p)
      else if m < freeBytes (pool p) then freeBytes (pool p) - m else 0)"
    by (auto simp: not_le dest: leD)
  finally show ?thesis
    unfolding m .
qed

lemma maxShrinkCapacity_le_freeBytes: "maxShrinkCapacity env p \<le> freeBytes (pool p)"
proof -
  define m where "m = min (scale env (capacity (pool p)) (minFreeCapacityRatio (config p)))
                          (minFreeCapacity (config p))"
  have "maxShrinkCapacity env p =
          (if minFreeCapacity (config p) \<noteq> 0 \<and> \<not> inactivePool p
           then if freeBytes (pool p) \<le> m then 0 else freeBytes (pool p) - m
           else freeBytes (pool p))"
    by (simp add: maxShrinkCapacity_unfold m_def)
  then show ?thesis
    by (simp add: word_sub_le not_le less_imp_le)
qed

text \<open>
  Claim C8: with \<^verbatim>\<open>minCapacity\<close> = 16MB, a pool of capacity 64MB with no reserved
  bytes, a non-zero peak and 64MB free is inactive, so the shrink bound and the
  reclaimable bound are both the full 64MB, and so is
  \<^verbatim>\<open>reclaimableFreeCapacity()\<close>.
\<close>

theorem inactive_pool_reclaimable_free:
  assumes "minCapacity (config p) = 16777216"
    and "capacity (pool p) = 67108864"
    and "reservedBytes (pool p) = 0"
    and "peakBytes (pool p) \<noteq> 0"
    and "freeBytes (pool p) = 67108864"
  shows "maxShrinkCapacity env p = 67108864 \<and> maxReclaimableCapacity p = 67108864 \<and>
         reclaimableFreeCapacity env p = 67108864"
  using assms
  by (simp add: inactivePool_def maxShrinkCapacity_unfold maxReclaimableCapacity_def
      reclaimableFreeCapacity_def)

text \<open>The scenario of claim C8 on a concrete participant.\<close>

theorem inactive_pool_reclaimable_free_witness:
  "minCapacity (config inactiveExample) = 16777216 \<and>
   capacity (pool inactiveExample) = 67108864 \<and>
   reservedBytes (pool inactiveExample) = 0 \<and>
   peakBytes (pool inactiveExample) \<noteq> 0 \<and>
   freeBytes (pool inactiveExample) = 67108864 \<and>
   reclaimableFreeCapacity quietEnv inactiveExample = 67108864"
proof -
  have h: "minCapacity (config inactiveExample) = 16777216"
      "capacity (pool inactiveExample) = 67108864"
      "reservedBytes (pool inactiveExample) = 0"
      "peakBytes (pool inactiveExample) \<noteq> 0"
      "freeBytes (pool inactiveExample) = 67108864"
    by (simp_all add: inactiveExample_def example_defs)
  from inactive_pool_reclaimable_free [OF h, of quietEnv] h show ?thesis by simp
qed

text \<open>
  Below \<open>2\<^sup>6\<^sup>3\<close> the signed reading of a 64-bit word is its unsigned one, and it
  is never above it; so the signed minimum of \<^verbatim>\<open>std::min<int64_t>\<close> stays below its
  second argument when the first is below \<open>2\<^sup>6\<^sup>3\<close>.
\<close>

lemma sint_small:
  assumes "uint (a::u64) < 2^63" shows "sint a = uint a"
proof -
  have "- (2 ^ 63) \<le> (0::int)" by simp
  also have "(0::int) \<le> uint a" by simp
  finally have "- (2 ^ 63) \<le> uint a" .
  then have "signed_take_bit 63 (uint a) = uint a"
    using assms by (rule signed_take_bit_int_eq_self)
  then show ?thesis by (simp add: sint_uint)
qed

lemma sint_le_uint: "sint (b::u64) \<le> uint b"
proof -
  have "- (2 ^ 63) \<le> (0::int)" by simp
  also have "(0::int) \<le> uint b" by simp
  finally have "- (2 ^ 63) \<le> uint b" .
  then have "signed_take_bit 63 (uint b) \<le> uint b"
    by (simp only: signed_take_bit_int_less_eq_self_iff)
  then show ?thesis by (simp add: sint_uint)
qed

lemma min_int64_le:
  assumes "a < 2^63" shows "min_int64 (a::u64) b \<le> b"
proof (cases "sint b < sint a")
  case True
  then show ?thesis by (simp add: min_int64_def)
next
  case False
  from assms have "uint a < 2^63"
    by (simp add: word_less_def)
  then have "sint a = uint a" by (rule sint_small)
  with False sint_le_uint [of b] have "uint a \<le> uint b" by simp
  with False show ?thesis by (simp add: min_int64_def word_le_def)
qed

lemma maxReclaimableCapacity_le_capacity: "maxReclaimableCapacity p \<le> capacity (pool p)"
  by (simp add: maxReclaimableCapacity_def Let_def word_sub_le not_less)

text \<open>
  A pool's capacity fits a signed 64-bit number, so the signed comparison of
  \<^verbatim>\<open>std::min<int64_t>\<close> reads the reclaimable capacity as it is.
\<close>

lemma capacity_fits_int64: "capacity mp < 2 ^ 63"
proof -
  have "uint (poolCapacity mp) < 2 ^ 63"
    using uint_bounded [of "poolCapacity mp"] by simp
  moreover have "uint (ucast (poolCapacity mp) :: u64) = uint (poolCapacity mp)"
    by (simp add: uint_up_ucast is_up)
  ultimately show ?thesis
    by (simp add: capacity_def word_less_def)
qed

text \<open>
  Claim C9: for every participant and every pool state,
  \<^verbatim>\<open>reclaimableFreeCapacity()\<close> is at most the pool's \<^verbatim>\<open>freeBytes()\<close>, and
  \<^verbatim>\<open>reclaimableUsedCapacity()\<close> is at most the pool-reported
  \<^verbatim>\<open>reclaimableBytes()\<close>, an absent value counting as 0.
\<close>

theorem reclaimable_bounds:
  "reclaimableFreeCapacity env p \<le> freeBytes (pool p) \<and>
   reclaimableUsedCapacity p \<le> value_or (reclaimableBytes (pool p)) 0"
proof
  have "reclaimableFreeCapacity env p \<le> maxShrinkCapacity env p"
    by (simp add: reclaimableFreeCapacity_def)
  also have "\<dots> \<le> freeBytes (pool p)" by (rule maxShrinkCapacity_le_freeBytes)
  finally show "reclaimableFreeCapacity env p \<le> freeBytes (pool p)" .
next
  from maxReclaimableCapacity_le_capacity [of p] capacity_fits_int64 [of "pool p"]
  have "maxReclaimableCapacity p < 2 ^ 63" by (rule le_less_trans)
  then show "reclaimableUsedCapacity p \<le> value_or (reclaimableBytes (pool p)) 0"
    by (simp add: reclaimableUsedCapacity_def Let_def min_int64_le)
qed

text \<open>
  Claim C2, as stated for every \<^verbatim>\<open>requestBytes\<close>, fails for a request above
  \<^verbatim>\<open>maxGrowCapacity()\<close>: the cap brings \<^verbatim>\<open>maxGrowBytes\<close> below the request and
  \<^verbatim>\<open>VELOX_CHECK_LE(requestBytes, maxGrowBytes)\<close> fails, so no targets are produced.
  Here the pool holds 50 of at most 100 bytes and 100 more are requested.
\<close>

theorem getGrowTargets_counterexample:
  "maxGrowCapacity growExample = Inr 50 \<and>
   getGrowTargets quietEnv growExample 100 = Inl VeloxCheckFailure"
  by (simp add: growExample_def example_defs getGrowTargets_def maxGrowCapacity_def
      minGrowCapacity_def)

text \<open>
  The constructor checks \<^verbatim>\<open>minCapacity \<le> maxCapacity_\<close>; with it the minimal growth
  never exceeds the maximal one.
\<close>

lemma minGrowCapacity_le:
  assumes "capacity (pool p) \<le> maxCapacity p" and "minCapacity (config p) \<le> maxCapacity p"
  shows "minGrowCapacity p \<le> maxCapacity p - capacity (pool p)"
proof (cases "minCapacity (config p) \<le> capacity (pool p)")
  case True
  then show ?thesis by (simp add: minGrowCapacity_def)
next
  case False
  then have lt: "capacity (pool p) \<le> minCapacity (config p)" by simp
  have "unat (minCapacity (config p) - capacity (pool p))
        = unat (minCapacity (config p)) - unat (capacity (pool p))"
    using lt by (simp add: unat_sub)
  moreover have "unat (maxCapacity p - capacity (pool p))
        = unat (maxCapacity p) - unat (capacity (pool p))"
    using assms(1) by (simp add: unat_sub)
  moreover have "unat (minCapacity (config p)) \<le> unat (maxCapacity p)"
    using assms(2) by (simp add: word_le_nat_alt)
  ultimately have "minCapacity (config p) - capacity (pool p)
                   \<le> maxCapacity p - capacity (pool p)"
    by (simp add: word_le_nat_alt diff_le_mono)
  with False show ?thesis by (simp add: minGrowCapacity_def)
qed

text \<open>
  Claim C2, amended: for a participant with \<^verbatim>\<open>capacity \<le> maxCapacity\<close> and
  \<^verbatim>\<open>minCapacity \<le> maxCapacity\<close>, \<^verbatim>\<open>maxGrowCapacity()\<close> is \<open>maxCapacity - capacity\<close>
  and, for every \<^verbatim>\<open>requestBytes\<close> that is at most \<^verbatim>\<open>maxGrowCapacity()\<close>,
  \<^verbatim>\<open>getGrowTargets\<close> produces \<^verbatim>\<open>minGrowBytes\<close> = \<^verbatim>\<open>minGrowCapacity()\<close> and
  \<^verbatim>\<open>maxGrowBytes\<close> equal to the request when no growth policy is configured,
  otherwise to the capacity while twice the capacity (in 64-bit arithmetic) is at
  most \<^verbatim>\<open>fastExponentialGrowthCapacityLimit\<close> and to
  \<^verbatim>\<open>capacity \<times> slowCapacityGrowRatio\<close> beyond, then raised to the request and to
  \<^verbatim>\<open>minGrowCapacity()\<close> and capped at \<^verbatim>\<open>maxGrowCapacity()\<close>; these results satisfy
  \<^verbatim>\<open>minGrowBytes \<le> maxGrowBytes\<close> and \<^verbatim>\<open>requestBytes \<le> maxGrowBytes\<close>. For every
  \<^verbatim>\<open>requestBytes\<close> above \<^verbatim>\<open>maxGrowCapacity()\<close> the check
  \<^verbatim>\<open>VELOX_CHECK_LE(requestBytes, maxGrowBytes)\<close> fails and no targets are produced.
\<close>

theorem getGrowTargets_value:
  assumes cap: "capacity (pool p) \<le> maxCapacity p"
    and minCap: "minCapacity (config p) \<le> maxCapacity p"
    and policy: "policyBytes =
       (if fastExponentialGrowthCapacityLimit (config p) = 0 \<and> slowCapacityGrowRatio (config p) = 0
        then requestBytes
        else if capacity (pool p) * 2 \<le> fastExponentialGrowthCapacityLimit (config p)
        then capacity (pool p)
        else scale env (capacity (pool p)) (slowCapacityGrowRatio (config p)))"
    and maxGrow: "maxGrowBytes =
       min (maxCapacity p - capacity (pool p))
           (max (max requestBytes policyBytes) (minGrowCapacity p))"
  shows "maxGrowCapacity p = Inr (maxCapacity p - capacity (pool p)) \<and>
         (requestBytes \<le> maxCapacity p - capacity (pool p) \<longrightarrow>
            getGrowTargets env p requestBytes = Inr (maxGrowBytes, minGrowCapacity p) \<and>
            minGrowCapacity p \<le> maxGrowBytes \<and> requestBytes \<le> maxGrowBytes) \<and>
         (maxCapacity p - capacity (pool p) < requestBytes \<longrightarrow>
            getGrowTargets env p requestBytes = Inl VeloxCheckFailure)"
proof -
  have mg: "maxGrowCapacity p = Inr (maxCapacity p - capacity (pool p))"
    using cap by (simp add: maxGrowCapacity_def)
  have le1: "minGrowCapacity p \<le> maxGrowBytes"
    unfolding maxGrow using minGrowCapacity_le [OF cap minCap] by simp
  have unfold: "getGrowTargets env p requestBytes =
      (if \<not> minGrowCapacity p \<le> maxGrowBytes then Inl VeloxCheckFailure
       else if \<not> requestBytes \<le> maxGrowBytes then Inl VeloxCheckFailure
       else Inr (maxGrowBytes, minGrowCapacity p))"
    unfolding getGrowTargets_def mg policy maxGrow by (simp add: Let_def)
  have ok: "getGrowTargets env p requestBytes = Inr (maxGrowBytes, minGrowCapacity p) \<and>
            minGrowCapacity p \<le> maxGrowBytes \<and> requestBytes \<le> maxGrowBytes"
    if req: "requestBytes \<le> maxCapacity p - capacity (pool p)"
  proof -
    have le2: "requestBytes \<le> maxGrowBytes"
      unfolding maxGrow using req by (simp add: le_max_iff_disj)
    with le1 unfold show ?thesis by simp
  qed
  have bad: "getGrowTargets env p requestBytes = Inl VeloxCheckFailure"
    if req: "maxCapacity p - capacity (pool p) < requestBytes"
  proof -
    have "maxGrowBytes \<le> maxCapacity p - capacity (pool p)"
      unfolding maxGrow by simp
    with req have "\<not> requestBytes \<le> maxGrowBytes" by simp
    with unfold show ?thesis by simp
  qed
  from mg ok bad show ?thesis by blast
qed

text \<open>
  Claim C2 on a pool that holds 60 of at most 100 bytes under \<^verbatim>\<open>minCapacity = 70\<close>.
  With a fast limit of 200 a request of 20 is raised to the capacity 60 and capped
  at 40; with a fast limit of 100 it is raised to \<open>60 \<times> 0.5 = 30\<close>; a request of 50
  exceeds \<^verbatim>\<open>maxGrowCapacity() = 40\<close> and fails.
\<close>

theorem getGrowTargets_value_witness:
  "capacity (pool fastGrowExample) \<le> maxCapacity fastGrowExample \<and>
   minCapacity (config fastGrowExample) \<le> maxCapacity fastGrowExample \<and>
   (20::u64) \<le> maxCapacity fastGrowExample - capacity (pool fastGrowExample) \<and>
   getGrowTargets quietEnv fastGrowExample 20 = Inr (40, 10) \<and>
   maxCapacity fastGrowExample - capacity (pool fastGrowExample) < (50::u64) \<and>
   getGrowTargets quietEnv fastGrowExample 50 = Inl VeloxCheckFailure \<and>
   capacity (pool slowGrowExample) \<le> maxCapacity slowGrowExample \<and>
   minCapacity (config slowGrowExample) \<le> maxCapacity slowGrowExample \<and>
   (20::u64) \<le> maxCapacity slowGrowExample - capacity (pool slowGrowExample) \<and>
   getGrowTargets quietEnv slowGrowExample 20 = Inr (30, 10)"
proof -
  have f: "capacity (pool fastGrowExample) \<le> maxCapacity fastGrowExample"
      "minCapacity (config fastGrowExample) \<le> maxCapacity fastGrowExample"
    by (simp_all add: fastGrowExample_def example_defs)
  have fr: "(20::u64) \<le> maxCapacity fastGrowExample - capacity (pool fastGrowExample)"
      "maxCapacity fastGrowExample - capacity (pool fastGrowExample) < (50::u64)"
    by (simp_all add: fastGrowExample_def example_defs)
  have fmin: "minGrowCapacity fastGrowExample = 10"
    by (simp add: fastGrowExample_def example_defs minGrowCapacity_def)
  have fpol: "(60::u64) =
       (if fastExponentialGrowthCapacityLimit (config fastGrowExample) = 0 \<and>
           slowCapacityGrowRatio (config fastGrowExample) = 0
        then r
        else if capacity (pool fastGrowExample) * 2
                \<le> fastExponentialGrowthCapacityLimit (config fastGrowExample)
        then capacity (pool fastGrowExample)
        else scale quietEnv (capacity (pool fastGrowExample))
               (slowCapacityGrowRatio (config fastGrowExample)))" for r
    by (simp add: fastGrowExample_def example_defs)
  have fmax: "(40::u64) = min (maxCapacity fastGrowExample - capacity (pool fastGrowExample))
           (max (max r 60) (minGrowCapacity fastGrowExample))" if "r \<le> 60" for r :: u64
  proof -
    have "maxCapacity fastGrowExample - capacity (pool fastGrowExample) = 40"
      by (simp add: fastGrowExample_def example_defs)
    with that show ?thesis by (simp add: fmin max_absorb2)
  qed
  have s: "capacity (pool slowGrowExample) \<le> maxCapacity slowGrowExample"
      "minCapacity (config slowGrowExample) \<le> maxCapacity slowGrowExample"
    by (simp_all add: slowGrowExample_def example_defs)
  have sr: "(20::u64) \<le> maxCapacity slowGrowExample - capacity (pool slowGrowExample)"
    by (simp add: slowGrowExample_def example_defs)
  have smin: "minGrowCapacity slowGrowExample = 10"
    by (simp add: slowGrowExample_def example_defs minGrowCapacity_def)
  have spol: "(30::u64) =
       (if fastExponentialGrowthCapacityLimit (config slowGrowExample) = 0 \<and>
           slowCapacityGrowRatio (config slowGrowExample) = 0
        then 20
        else if capacity (pool slowGrowExample) * 2
                \<le> fastExponentialGrowthCapacityLimit (config slowGrowExample)
        then capacity (pool slowGrowExample)
        else scale quietEnv (capacity (pool slowGrowExample))
               (slowCapacityGrowRatio (config slowGrowExample)))"
    by (simp add: slowGrowExample_def example_defs)
  have smax: "(30::u64) = min (maxCapacity slowGrowExample - capacity (pool slowGrowExample))
           (max (max 20 30) (minGrowCapacity slowGrowExample))"
  proof -
    have "maxCapacity slowGrowExample - capacity (pool slowGrowExample) = 40"
      by (simp add: slowGrowExample_def example_defs)
    then show ?thesis by (simp add: smin)
  qed
  have a: "getGrowTargets quietEnv fastGrowExample 20 = Inr (40, 10)"
    using getGrowTargets_value [OF f fpol [of 20] fmax [of 20]] fr(1) fmin by simp
  have b: "getGrowTargets quietEnv fastGrowExample 50 = Inl VeloxCheckFailure"
    using getGrowTargets_value [OF f fpol [of 50] fmax [of 50]] fr(2) by simp
  have c: "getGrowTargets quietEnv slowGrowExample 20 = Inr (30, 10)"
    using getGrowTargets_value [OF s spol smax] sr smin by simp
  from f fr s sr a b c show ?thesis by simp
qed

text \<open>What \<^verbatim>\<open>shrinkLocked\<close> and \<^verbatim>\<open>abortLocked\<close> do, case by case.\<close>

lemma shrinkLocked_all_ok:
  assumes "poolShrink env (pool p) 0 = (mp, Inr bytes)"
  shows "shrinkLocked env p True
         = (p\<lparr>numShrinks := numShrinks p + 1, pool := mp,
               reclaimedBytes := reclaimedBytes p + bytes\<rparr>, Inr bytes)"
  using assms by (simp add: shrinkLocked_def)

lemma shrinkLocked_keeps_aborted:
  assumes "shrinkLocked env p reclaimAll = (p1, r)"
  shows "aborted p1 = aborted p"
proof (cases "reclaimAll \<or> 0 < reclaimableFreeCapacity env (p\<lparr>numShrinks := numShrinks p + 1\<rparr>)")
  case False
  with assms show ?thesis by (auto simp: shrinkLocked_def Let_def)
next
  case True
  define t where "t = (if reclaimAll then 0
                       else reclaimableFreeCapacity env (p\<lparr>numShrinks := numShrinks p + 1\<rparr>))"
  obtain mp res where ps: "poolShrink env (pool p) t = (mp, res)"
    by (cases "poolShrink env (pool p) t")
  show ?thesis
  proof (cases res)
    case (Inl e)
    with ps True assms show ?thesis
      by (cases reclaimAll) (auto simp: shrinkLocked_def Let_def t_def)
  next
    case (Inr bytes)
    with ps True assms show ?thesis
      by (cases reclaimAll) (auto simp: shrinkLocked_def Let_def t_def)
  qed
qed

lemma abortLocked_aborted:
  assumes "abortLocked env p err = Returns (p', freed)"
  shows "aborted p'"
proof (cases "aborted p")
  case True
  with assms show ?thesis by (simp add: abortLocked_def)
next
  case False
  obtain mp1 x where pa: "poolAbort env (pool p) err = (mp1, x)"
    by (cases "poolAbort env (pool p) err")
  define q where "q = p\<lparr>aborted := True, pool := mp1\<rparr>"
  obtain p3 r where sl: "shrinkLocked env q True = (p3, r)"
    by (cases "shrinkLocked env q True")
  have ab: "abortLocked env p err
      = (if \<not> pool_aborted mp1 then Terminates
         else case shrinkLocked env q True of
           (p3, Inl e) \<Rightarrow> Terminates
         | (p3, Inr bytes) \<Rightarrow> Returns (p3, bytes))"
    using False pa by (simp add: abortLocked_def q_def)
  from ab assms sl have "p' = p3"
    by (cases r) (simp_all split: if_splits)
  moreover from shrinkLocked_keeps_aborted [OF sl] have "aborted p3"
    by (simp add: q_def)
  ultimately show ?thesis by simp
qed

text \<open>
  Claim C7: \<^verbatim>\<open>abort(error)\<close> on a participant that is already aborted returns 0 and
  returns the participant as it was: the aborted flag, the pool and all counters
  (\<^verbatim>\<open>numRequests\<close>, \<^verbatim>\<open>numReclaims\<close>, \<^verbatim>\<open>numShrinks\<close>, \<^verbatim>\<open>numGrows\<close>,
  \<^verbatim>\<open>reclaimedBytes\<close>, \<^verbatim>\<open>growBytes\<close>) are unchanged. In particular a second abort,
  after a first one that returned, changes nothing.
\<close>

theorem abort_idempotent:
  "(aborted p \<longrightarrow> abort env p err = Returns (p, 0)) \<and>
   (abort env p err = Returns (p', freed) \<longrightarrow>
      aborted p' \<and> abort env p' err' = Returns (p', 0))"
proof -
  have a: "aborted q \<Longrightarrow> abort env q e = Returns (q, 0)" for q e
    by (simp add: abort_def abortLocked_def)
  have b: "aborted p'" if "abort env p err = Returns (p', freed)"
    using that abortLocked_aborted by (simp add: abort_def)
  from a b show ?thesis by blast
qed

text \<open>Claim C7 on an aborted participant.\<close>

theorem abort_idempotent_witness:
  "aborted abortedExample \<and>
   abort quietEnv abortedExample (PoolError 1) = Returns (abortedExample, 0) \<and>
   abort quietEnv abortedExample (PoolError 2) = Returns (abortedExample, 0)"
proof -
  have h: "aborted abortedExample"
    by (simp add: abortedExample_def)
  from abort_idempotent [of abortedExample quietEnv "PoolError 1" abortedExample 0 "PoolError 2"] h
  show ?thesis by simp
qed

text \<open>
  Claim C10: when the effective target \<open>max(targetBytes, minReclaimBytes,
  capacity \<times> minReclaimPct)\<close> is 0, \<^verbatim>\<open>reclaim\<close> returns 0 with the participant and the
  caller's stats as they were, whatever the reclaim lock and the pool would do: it
  neither takes the lock nor calls the pool's reclaim or shrink, and no counter
  (\<^verbatim>\<open>numReclaims\<close> and \<^verbatim>\<open>numShrinks\<close> among them) changes.
\<close>

theorem reclaim_zero_target:
  assumes "max targetBytes (max (minReclaimBytes (config p))
             (scale env (capacity (pool p)) (minReclaimPct (config p)))) = 0"
  shows "reclaim env p targetBytes maxWaitTimeNs stats = Returns (p, stats, 0)"
  using assms by (simp add: reclaim_def effectiveTarget_def Let_def)

text \<open>Claim C10 on an empty pool whose reclaim callback would throw.\<close>

theorem reclaim_zero_target_witness:
  "max (0::u64) (max (minReclaimBytes (config idleExample))
      (scale throwingEnv (capacity (pool idleExample)) (minReclaimPct (config idleExample)))) = 0 \<and>
   reclaim throwingEnv idleExample 0 1000 \<lparr>numNonReclaimableAttempts = 0\<rparr>
     = Returns (idleExample, \<lparr>numNonReclaimableAttempts = 0\<rparr>, 0)"
proof -
  have h: "max (0::u64) (max (minReclaimBytes (config idleExample))
      (scale throwingEnv (capacity (pool idleExample)) (minReclaimPct (config idleExample)))) = 0"
    by (simp add: idleExample_def example_defs)
  from reclaim_zero_target [OF h] h show ?thesis by simp
qed

text \<open>How an exception leaves the \<^verbatim>\<open>try\<close> block of \<^verbatim>\<open>reclaim\<close>.\<close>

lemma reclaimAttempt_callback_throws:
  assumes "tryLockFor env maxWaitTimeNs"
    and "poolReclaim env (pool p) target (maxWaitTimeNs div 1000000) stats = (mp0, stats1, Inl e)"
  shows "reclaimAttempt env p target maxWaitTimeNs stats
         = (p\<lparr>numReclaims := numReclaims p + 1, pool := mp0\<rparr>, stats1, Inl e)"
  using assms by (simp add: reclaimAttempt_def)

lemma reclaimAttempt_shrink_throws:
  assumes "tryLockFor env maxWaitTimeNs"
    and "poolReclaim env (pool p) target (maxWaitTimeNs div 1000000) stats = (mp0, stats1, Inr bytes)"
    and "shrink env (p\<lparr>numReclaims := numReclaims p + 1, pool := mp0\<rparr>) False = (p1, Inl e)"
  shows "reclaimAttempt env p target maxWaitTimeNs stats = (p1, stats1, Inl e)"
  using assms by (simp add: reclaimAttempt_def)

lemma shrinkLocked_all_throws:
  assumes "poolShrink env (pool p) 0 = (mp, Inl e)"
  shows "shrinkLocked env p True = (p\<lparr>numShrinks := numShrinks p + 1, pool := mp\<rparr>, Inl e)"
  using assms by (simp add: shrinkLocked_def)

text \<open>\<^verbatim>\<open>abortLocked\<close> in full, in terms of what the pool answers.\<close>

lemma abortLocked_cases:
  assumes pa: "poolAbort env (pool p) err = (mp1, x)"
    and ps: "poolShrink env mp1 0 = (mp2, r)"
  shows "abortLocked env p err =
     (if aborted p then Returns (p, 0)
      else if \<not> pool_aborted mp1 then Terminates
      else case r of
             Inl e' \<Rightarrow> Terminates
           | Inr freed \<Rightarrow>
               Returns (p\<lparr>aborted := True, pool := mp2, numShrinks := numShrinks p + 1,
                          reclaimedBytes := reclaimedBytes p + freed\<rparr>, freed))"
proof (cases "aborted p")
  case True
  then show ?thesis by (simp add: abortLocked_def)
next
  case False
  define q where "q = p\<lparr>aborted := True, pool := mp1\<rparr>"
  have ab: "abortLocked env p err
      = (if \<not> pool_aborted mp1 then Terminates
         else case shrinkLocked env q True of
           (p3, Inl e) \<Rightarrow> Terminates
         | (p3, Inr bytes) \<Rightarrow> Returns (p3, bytes))"
    using False pa by (simp add: abortLocked_def q_def)
  have psq: "poolShrink env (pool q) 0 = (mp2, r)"
    using ps by (simp add: q_def)
  show ?thesis
  proof (cases r)
    case (Inl e')
    with psq have "shrinkLocked env q True
        = (q\<lparr>numShrinks := numShrinks q + 1, pool := mp2\<rparr>, Inl e')"
      by (intro shrinkLocked_all_throws) simp
    with ab False Inl show ?thesis by simp
  next
    case (Inr freed)
    with psq have "shrinkLocked env q True
         = (q\<lparr>numShrinks := numShrinks q + 1, pool := mp2,
               reclaimedBytes := reclaimedBytes q + freed\<rparr>, Inr freed)"
      by (intro shrinkLocked_all_ok) simp
    with ab False Inr show ?thesis by (simp add: q_def)
  qed
qed

text \<open>
  \<^verbatim>\<open>reclaim\<close> after an exception has left its \<^verbatim>\<open>try\<close> block: the \<^verbatim>\<open>catch\<close> clause
  hands it to \<^verbatim>\<open>abortLocked\<close>.
\<close>

lemma reclaim_catches:
  assumes "effectiveTarget env p targetBytes \<noteq> 0"
    and "reclaimAttempt env p (effectiveTarget env p targetBytes) maxWaitTimeNs stats
         = (p1, stats1, Inl e)"
  shows "reclaim env p targetBytes maxWaitTimeNs stats =
        (case abortLocked env p1 e of
           Returns (p2, reclaimedCapacity) \<Rightarrow> Returns (p2, stats1, reclaimedCapacity)
         | Terminates \<Rightarrow> Terminates)"
  using assms by (simp add: reclaim_def Let_def)

text \<open>
  Claim C3, as stated for every call, fails for a pool whose \<^verbatim>\<open>shrink\<close> throws
  after the reclaim callback and throws again in the forced shrink of the abort:
  that second exception is outside any \<^verbatim>\<open>try\<close> block of the \<^verbatim>\<open>noexcept\<close>
  \<^verbatim>\<open>abortLocked\<close>, so \<^verbatim>\<open>reclaim\<close> does not return a freed capacity but terminates.
\<close>

theorem reclaim_exception_counterexample:
  "effectiveTarget shrinkThrowsEnv growExample 10 = 10 \<and>
   tryLockFor shrinkThrowsEnv 1000 \<and>
   poolReclaim shrinkThrowsEnv (pool growExample) 10 (1000 div 1000000) noStats
     = (pool growExample, noStats, Inr 0) \<and>
   shrink shrinkThrowsEnv (growExample\<lparr>numReclaims := 1\<rparr>) False
     = (growExample\<lparr>numReclaims := 1, numShrinks := 1\<rparr>, Inl (PoolError 9)) \<and>
   reclaim shrinkThrowsEnv growExample 10 1000 noStats = Terminates"
proof -
  define p1 where "p1 = growExample\<lparr>numReclaims := 1, numShrinks := 1\<rparr>"
  have t: "effectiveTarget shrinkThrowsEnv growExample 10 = 10"
    by (simp add: effectiveTarget_def growExample_def shrinkThrowsEnv_def example_defs)
  have l: "tryLockFor shrinkThrowsEnv 1000"
    by (simp add: shrinkThrowsEnv_def)
  have cb: "poolReclaim shrinkThrowsEnv (pool growExample) 10 (1000 div 1000000) noStats
     = (pool growExample, noStats, Inr 0)"
    by (simp add: shrinkThrowsEnv_def)
  have sh: "shrink shrinkThrowsEnv (growExample\<lparr>numReclaims := 1\<rparr>) False = (p1, Inl (PoolError 9))"
    by (simp add: shrink_def shrinkLocked_def shrinkThrowsEnv_def p1_def
        reclaimableFreeCapacity_def maxShrinkCapacity_unfold maxReclaimableCapacity_def
        inactivePool_def growExample_def example_defs)
  have att: "reclaimAttempt shrinkThrowsEnv growExample 10 1000 noStats
             = (p1, noStats, Inl (PoolError 9))"
    using reclaimAttempt_shrink_throws [of shrinkThrowsEnv 1000 growExample 10 noStats
        "pool growExample" noStats 0 p1 "PoolError 9"] l cb sh
    by (simp add: growExample_def mkParticipant_def)
  have pa: "poolAbort shrinkThrowsEnv (pool p1) (PoolError 9)
            = ((pool p1)\<lparr>pool_aborted := True\<rparr>, None)"
    by (simp add: shrinkThrowsEnv_def)
  have ps: "poolShrink shrinkThrowsEnv ((pool p1)\<lparr>pool_aborted := True\<rparr>) 0
            = ((pool p1)\<lparr>pool_aborted := True\<rparr>, Inl (PoolError 9))"
    by (simp add: shrinkThrowsEnv_def)
  have na: "\<not> aborted p1"
    by (simp add: p1_def growExample_def mkParticipant_def)
  have "abortLocked shrinkThrowsEnv p1 (PoolError 9) = Terminates"
    using abortLocked_cases [OF pa ps] na by simp
  moreover have "reclaim shrinkThrowsEnv growExample 10 1000 noStats =
        (case abortLocked shrinkThrowsEnv p1 (PoolError 9) of
           Returns (p2, reclaimedCapacity) \<Rightarrow> Returns (p2, noStats, reclaimedCapacity)
         | Terminates \<Rightarrow> Terminates)"
    using att t by (intro reclaim_catches) simp_all
  ultimately have "reclaim shrinkThrowsEnv growExample 10 1000 noStats = Terminates"
    by simp
  with t l cb sh show ?thesis by (simp add: p1_def)
qed

text \<open>
  Claim C3, amended: in every call of \<^verbatim>\<open>reclaim\<close> that has a non-zero target and
  takes the lock, when the pool's reclaim callback, or the \<^verbatim>\<open>shrink(false)\<close> after
  it, throws \<open>e\<close>, no exception reaches the caller: \<^verbatim>\<open>reclaim\<close> either returns or
  terminates the process. A participant that was not aborted before is marked
  aborted and the pool's \<^verbatim>\<open>abort\<close> is called with \<open>e\<close>; if the pool then reports
  itself aborted and the forced \<^verbatim>\<open>shrink(0)\<close> returns, \<^verbatim>\<open>reclaim\<close> returns the capacity
  that this shrink freed, which is also added to \<^verbatim>\<open>reclaimedBytes\<close>; if the pool
  does not report itself aborted, or the forced shrink throws, \<^verbatim>\<open>reclaim\<close>
  terminates. For a participant that was aborted before, \<^verbatim>\<open>reclaim\<close> returns 0 and
  the pool is not aborted again.
\<close>

theorem reclaim_exception_aborts:
  assumes target: "target = effectiveTarget env p targetBytes" "target \<noteq> 0"
    and locked: "tryLockFor env maxWaitTimeNs"
    and thrown:
      "(poolReclaim env (pool p) target (maxWaitTimeNs div 1000000) stats = (mp0, stats1, Inl e) \<and>
        p1 = p\<lparr>numReclaims := numReclaims p + 1, pool := mp0\<rparr>) \<or>
       (\<exists>bytes. poolReclaim env (pool p) target (maxWaitTimeNs div 1000000) stats
                   = (mp0, stats1, Inr bytes) \<and>
                shrink env (p\<lparr>numReclaims := numReclaims p + 1, pool := mp0\<rparr>) False = (p1, Inl e))"
    and pool_abort: "poolAbort env (pool p1) e = (mp1, x)"
    and force_shrink: "poolShrink env mp1 0 = (mp2, r)"
  shows "reclaim env p targetBytes maxWaitTimeNs stats =
           (if aborted p then Returns (p1, stats1, 0)
            else if \<not> pool_aborted mp1 then Terminates
            else case r of
                   Inl e' \<Rightarrow> Terminates
                 | Inr freed \<Rightarrow>
                     Returns (p1\<lparr>aborted := True, pool := mp2,
                                 numShrinks := numShrinks p1 + 1,
                                 reclaimedBytes := reclaimedBytes p1 + freed\<rparr>, stats1, freed))"
proof -
  have att: "reclaimAttempt env p target maxWaitTimeNs stats = (p1, stats1, Inl e)"
    using thrown locked
    by (auto simp: reclaimAttempt_callback_throws reclaimAttempt_shrink_throws)
  have ab: "aborted p1 = aborted p"
    using thrown
  proof
    assume "poolReclaim env (pool p) target (maxWaitTimeNs div 1000000) stats = (mp0, stats1, Inl e) \<and>
        p1 = p\<lparr>numReclaims := numReclaims p + 1, pool := mp0\<rparr>"
    then show ?thesis by simp
  next
    assume "\<exists>bytes. poolReclaim env (pool p) target (maxWaitTimeNs div 1000000) stats
                   = (mp0, stats1, Inr bytes) \<and>
                shrink env (p\<lparr>numReclaims := numReclaims p + 1, pool := mp0\<rparr>) False = (p1, Inl e)"
    then have "shrinkLocked env (p\<lparr>numReclaims := numReclaims p + 1, pool := mp0\<rparr>) False = (p1, Inl e)"
      by (auto simp: shrink_def)
    from shrinkLocked_keeps_aborted [OF this] show ?thesis by simp
  qed
  have r: "reclaim env p targetBytes maxWaitTimeNs stats =
        (case abortLocked env p1 e of
           Returns (p2, reclaimedCapacity) \<Rightarrow> Returns (p2, stats1, reclaimedCapacity)
         | Terminates \<Rightarrow> Terminates)"
    using target att by (intro reclaim_catches) simp_all
  show ?thesis
    unfolding r abortLocked_cases [OF pool_abort force_shrink] ab
    by (cases r) simp_all
qed

text \<open>
  Claim C3 on a pool of capacity 50 whose reclaim callback throws and whose forced
  shrink frees the 50 bytes.
\<close>

theorem reclaim_exception_aborts_witness:
  "effectiveTarget throwingEnv growExample 10 = 10 \<and>
   tryLockFor throwingEnv 1000 \<and>
   poolReclaim throwingEnv (pool growExample) 10 (1000 div 1000000) noStats
     = (pool growExample, noStats, Inl (PoolError 7)) \<and>
   reclaim throwingEnv growExample 10 1000 noStats
     = Returns (growExample\<lparr>numReclaims := 1, aborted := True,
                  pool := (pool growExample)\<lparr>pool_aborted := True, poolCapacity := 0,
                                              freeBytes := 0\<rparr>,
                  numShrinks := 1, reclaimedBytes := 50\<rparr>,
                noStats, 50)"
proof -
  define p1 where "p1 = growExample\<lparr>numReclaims := numReclaims growExample + 1,
                                     pool := pool growExample\<rparr>"
  define mp1 where "mp1 = (pool growExample)\<lparr>pool_aborted := True\<rparr>"
  define mp2 where "mp2 = mp1\<lparr>poolCapacity := 0, freeBytes := 0\<rparr>"
  have t: "(10::u64) = effectiveTarget throwingEnv growExample 10" "(10::u64) \<noteq> 0"
    by (simp_all add: effectiveTarget_def growExample_def example_defs)
  have l: "tryLockFor throwingEnv 1000"
    by (simp add: throwingEnv_def)
  have cb: "poolReclaim throwingEnv (pool growExample) 10 (1000 div 1000000) noStats
            = (pool growExample, noStats, Inl (PoolError 7))"
    by (simp add: throwingEnv_def)
  then have th: "(poolReclaim throwingEnv (pool growExample) 10 (1000 div 1000000) noStats
            = (pool growExample, noStats, Inl (PoolError 7)) \<and>
        p1 = growExample\<lparr>numReclaims := numReclaims growExample + 1, pool := pool growExample\<rparr>) \<or>
       (\<exists>bytes. poolReclaim throwingEnv (pool growExample) 10 (1000 div 1000000) noStats
                   = (pool growExample, noStats, Inr bytes) \<and>
                shrink throwingEnv (growExample\<lparr>numReclaims := numReclaims growExample + 1,
                   pool := pool growExample\<rparr>) False = (p1, Inl (PoolError 7)))"
    by (simp add: p1_def)
  have pa: "poolAbort throwingEnv (pool p1) (PoolError 7) = (mp1, None)"
    by (simp add: throwingEnv_def p1_def mp1_def)
  have pab: "pool_aborted mp1"
    by (simp add: mp1_def)
  have fs: "poolShrink throwingEnv mp1 0 = (mp2, Inr 50)"
    by (simp add: throwingEnv_def mp1_def mp2_def growExample_def mkParticipant_def mkPool_def
        capacity_def)
  have na: "\<not> aborted growExample"
    by (simp add: growExample_def mkParticipant_def)
  have eq: "p1\<lparr>aborted := True, pool := mp2, numShrinks := numShrinks p1 + 1,
               reclaimedBytes := reclaimedBytes p1 + 50\<rparr>
        = growExample\<lparr>numReclaims := 1, aborted := True,
                  pool := (pool growExample)\<lparr>pool_aborted := True, poolCapacity := 0,
                                              freeBytes := 0\<rparr>,
                  numShrinks := 1, reclaimedBytes := 50\<rparr>"
    by (simp add: p1_def mp2_def mp1_def growExample_def mkParticipant_def)
  from reclaim_exception_aborts [OF t l th pa fs] na pab eq t(1) l cb
  show ?thesis by simp
qed

text \<open>
  The operations resumed so far, followed by those still waiting, are the
  operations that waited at the start followed by those that had to wait since,
  in the order of their calls.
\<close>

lemma arbitrationCalls_fifo:
  "arbitrationCalls p cs = Inr (p', blocked, resumed) \<Longrightarrow>
   resumed @ waitOps p' = waitOps p @ blocked"
proof (induction cs arbitrary: p blocked resumed)
  case Nil
  then show ?case by simp
next
  case (Cons c cs)
  show ?case
  proof (cases c)
    case (Start a)
    obtain p1 waits where sa: "startArbitration p a = (p1, waits)"
      by (cases "startArbitration p a")
    with Cons.prems Start obtain blocked1 where
      rec: "arbitrationCalls p1 cs = Inr (p', blocked1, resumed)"
      and bl: "blocked = (if waits then [a] else []) @ blocked1"
      by (auto split: sum.splits)
    from sa have "waitOps p1 = waitOps p @ (if waits then [a] else [])"
      by (auto simp: startArbitration_def Let_def split: if_splits)
    with Cons.IH [OF rec] bl show ?thesis by simp
  next
    case (Finish a)
    with Cons.prems obtain p1 r resumed1 where
      fa: "finishArbitration p a = Inr (p1, r)"
      and rec: "arbitrationCalls p1 cs = Inr (p', blocked, resumed1)"
      and rs: "resumed = (case r of None \<Rightarrow> [] | Some w \<Rightarrow> [w]) @ resumed1"
      by (auto split: sum.splits)
    from fa have "(case r of None \<Rightarrow> [] | Some w \<Rightarrow> [w]) @ waitOps p1 = waitOps p"
      by (auto simp: finishArbitration_def split: if_splits list.splits)
    with Cons.IH [OF rec] rs show ?thesis
      by (metis append.assoc)
  qed
qed

text \<open>
  Claim C4: admission is first in, first out. When an operation is running,
  \<^verbatim>\<open>startArbitration\<close> appends the new one to the wait queue and lets it wait;
  \<^verbatim>\<open>finishArbitration\<close> of the running operation makes the front of the wait queue
  the running operation and resumes it, and only it (or clears \<^verbatim>\<open>runningOp_\<close> when
  nobody waits); so in any history of calls the \<open>i\<close>-th operation that had to wait
  is the \<open>i\<close>-th to be resumed after those that waited before: of two operations
  \<open>A\<close> and \<open>B\<close> that started while another ran, \<open>A\<close> first, \<open>A\<close> is resumed strictly
  before \<open>B\<close>.
\<close>

theorem arbitration_fifo:
  "(runningOp p \<noteq> None \<longrightarrow>
      startArbitration p a
        = (p\<lparr>numRequests := numRequests p + 1, waitOps := waitOps p @ [a]\<rparr>, True)) \<and>
   (runningOp p = Some r \<longrightarrow>
      finishArbitration p r
        = (case waitOps p of
             [] \<Rightarrow> Inr (p\<lparr>runningOp := None\<rparr>, None)
           | w # ws \<Rightarrow> Inr (p\<lparr>runningOp := Some w, waitOps := ws\<rparr>, Some w))) \<and>
   (arbitrationCalls p cs = Inr (p', blocked, resumed) \<longrightarrow>
      resumed @ waitOps p' = waitOps p @ blocked \<and>
      (i < j \<and> j < length blocked \<and> length (waitOps p) + j < length resumed \<longrightarrow>
         resumed ! (length (waitOps p) + i) = blocked ! i \<and>
         resumed ! (length (waitOps p) + j) = blocked ! j))"
proof (intro conjI impI)
  assume "runningOp p \<noteq> None"
  then show "startArbitration p a
        = (p\<lparr>numRequests := numRequests p + 1, waitOps := waitOps p @ [a]\<rparr>, True)"
    by (simp add: startArbitration_def Let_def)
next
  assume "runningOp p = Some r"
  then show "finishArbitration p r
        = (case waitOps p of
             [] \<Rightarrow> Inr (p\<lparr>runningOp := None\<rparr>, None)
           | w # ws \<Rightarrow> Inr (p\<lparr>runningOp := Some w, waitOps := ws\<rparr>, Some w))"
    by (simp add: finishArbitration_def)
next
  assume "arbitrationCalls p cs = Inr (p', blocked, resumed)"
  then show "resumed @ waitOps p' = waitOps p @ blocked"
    by (rule arbitrationCalls_fifo)
next
  assume run: "arbitrationCalls p cs = Inr (p', blocked, resumed)"
    and ij: "i < j \<and> j < length blocked \<and> length (waitOps p) + j < length resumed"
  have eq: "resumed @ waitOps p' = waitOps p @ blocked"
    using run by (rule arbitrationCalls_fifo)
  have nth: "resumed ! (length (waitOps p) + k) = blocked ! k"
    if "length (waitOps p) + k < length resumed" for k
  proof -
    have "resumed ! (length (waitOps p) + k) = (resumed @ waitOps p') ! (length (waitOps p) + k)"
      using that by (simp add: nth_append)
    also have "\<dots> = (waitOps p @ blocked) ! (length (waitOps p) + k)"
      by (simp only: eq)
    also have "\<dots> = blocked ! k" by simp
    finally show ?thesis .
  qed
  from ij show "resumed ! (length (waitOps p) + i) = blocked ! i"
    by (intro nth) simp
  from ij show "resumed ! (length (waitOps p) + j) = blocked ! j"
    by (intro nth) simp
qed

text \<open>
  Claim C4 on the history in which operations 2 and 3 start while operation 1
  runs, and operations 1 and 2 then finish.
\<close>

theorem arbitration_fifo_witness:
  "runningOp busyExample \<noteq> None \<and> runningOp busyExample = Some 1 \<and>
   startArbitration busyExample 2
     = (busyExample\<lparr>numRequests := numRequests busyExample + 1,
                     waitOps := waitOps busyExample @ [2]\<rparr>, True) \<and>
   finishArbitration busyExample 1 = Inr (busyExample\<lparr>runningOp := None\<rparr>, None) \<and>
   arbitrationCalls busyExample [Start 2, Start 3, Finish 1, Finish 2]
     = Inr (busyExample\<lparr>numRequests := 2, runningOp := Some 3\<rparr>, [2, 3], [2, 3]) \<and>
   (0::nat) < 1 \<and> 1 < length [2, 3 :: nat] \<and>
   [2, 3 :: nat] ! (length (waitOps busyExample) + 0) = [2, 3] ! 0 \<and>
   [2, 3 :: nat] ! (length (waitOps busyExample) + 1) = [2, 3] ! 1"
proof -
  have r: "runningOp busyExample = Some 1" and w: "waitOps busyExample = []"
    by (simp_all add: busyExample_def mkParticipant_def)
  have run: "arbitrationCalls busyExample [Start 2, Start 3, Finish 1, Finish 2]
     = Inr (busyExample\<lparr>numRequests := 2, runningOp := Some 3\<rparr>, [2, 3], [2, 3])"
    by (simp add: startArbitration_def finishArbitration_def busyExample_def mkParticipant_def)
  from arbitration_fifo [of busyExample 2 1 "[Start 2, Start 3, Finish 1, Finish 2]"
      "busyExample\<lparr>numRequests := 2, runningOp := Some 3\<rparr>" "[2, 3]" "[2, 3]" 0 1] r w run
  show ?thesis by simp
qed

section \<open>Properties of the hash join build operator\<close>

text \<open>Rows were deselected exactly when some row has a null key.\<close>

lemma filter_shorter_iff:
  "length (filter (\<lambda>r. \<not> P r) xs) < length xs \<longleftrightarrow> list_ex P xs"
proof (induction xs)
  case Nil
  then show ?case by simp
next
  case (Cons x xs)
  have "length (filter (\<lambda>r. \<not> P r) xs) \<le> length xs" by simp
  with Cons show ?case by (auto simp: less_Suc_eq_le)
qed

lemma noteNullKeys_sets:
  assumes "nullAware hb" and "list_ex hasNullKey input \<or> joinHasNullKeys hb"
  shows "noteNullKeys hb input = hb\<lparr>joinHasNullKeys := True\<rparr>"
proof (cases "joinHasNullKeys hb")
  case True
  then show ?thesis by (simp add: noteNullKeys_def)
next
  case False
  with assms(2) have ex: "list_ex hasNullKey input" by simp
  then have "dropsNullKeyRows hb \<Longrightarrow> length (selectRows hb input) < length input"
    by (simp add: selectRows_def filter_shorter_iff)
  with False ex assms(1) show ?thesis by (auto simp: noteNullKeys_def)
qed

lemma countNullKeys_fields:
  "joinNode (countNullKeys hb input) = joinNode hb"
  "nullAware (countNullKeys hb input) = nullAware hb"
  "joinHasNullKeys (countNullKeys hb input) = joinHasNullKeys hb"
  by (simp_all add: countNullKeys_def)

lemma addInput_short_circuit:
  assumes run: "state (self w) = kRunning"
    and fits: "ensureInputFits env w input = Inr w1"
    and sc: "isShortCircuitJoin (self w1)"
    and nulls: "list_ex hasNullKey input \<or> joinHasNullKeys (self w1)"
  shows "addInput env w input
         = noMoreInput env (w1\<lparr>self := (countNullKeys (self w1) input)\<lparr>joinHasNullKeys := True\<rparr>\<rparr>)"
proof -
  have flags: "isAntiJoin (joinNode (countNullKeys (self w1) input))"
      "nullAware (countNullKeys (self w1) input)"
      "\<not> hasFilter (joinNode (countNullKeys (self w1) input))"
    using sc by (simp_all add: isShortCircuitJoin_def countNullKeys_fields)
  have nk: "list_ex hasNullKey input \<or> joinHasNullKeys (countNullKeys (self w1) input)"
    using nulls by (simp add: countNullKeys_fields)
  have hb2: "noteNullKeys (countNullKeys (self w1) input) input
             = (countNullKeys (self w1) input)\<lparr>joinHasNullKeys := True\<rparr>"
    using flags(2) nk by (rule noteNullKeys_sets)
  show ?thesis
    using run fits flags by (simp add: addInput_def Let_def hb2)
qed

text \<open>
  The scan of the peers stops at the first one that has seen a null key, when no
  peer before it has been closed.
\<close>

lemma scanPeers_null_keys:
  assumes "list_all (\<lambda>q. \<not> stateCleared q) pre" and "joinHasNullKeys b"
  shows "scanPeers True (pre @ b # post) nk = ScanNullKeys"
  using assms by (induction pre arbitrary: nk) auto

lemma finishHashBuild_short_circuit:
  assumes run: "state (self w) = kRunning"
    and last: "allPeersFinished env"
    and sc: "isShortCircuitJoin (self w)"
    and nulls: "joinHasNullKeys (self w) \<or>
       (\<exists>pre b post. peers w = pre @ b # post \<and> joinHasNullKeys b \<and>
          list_all (\<lambda>q. \<not> stateCleared q) pre)"
  shows "finishHashBuild env w =
     Inr (w\<lparr>self := (self w)\<lparr>joinHasNullKeys := True,
                             poolReleases := poolReleases (self w) + 1\<rparr>,
            bridge := (bridge w)\<lparr>antiJoinHasNullKeys := True\<rparr>\<rparr>, True)"
proof (cases "joinHasNullKeys (self w)")
  case True
  then have "(self w)\<lparr>joinHasNullKeys := True\<rparr> = self w" by simp
  then have "(self w)\<lparr>joinHasNullKeys := True, poolReleases := poolReleases (self w) + 1\<rparr>
             = (self w)\<lparr>poolReleases := poolReleases (self w) + 1\<rparr>"
    by simp
  with True run last sc show ?thesis
    by (simp add: finishHashBuild_def isShortCircuitJoin_def Let_def)
next
  case False
  with nulls obtain pre b post where
    ps: "peers w = pre @ b # post" "joinHasNullKeys b" "list_all (\<lambda>q. \<not> stateCleared q) pre"
    by blast
  have "scanPeers True (peers w) False = ScanNullKeys"
    unfolding ps(1) using ps(3) ps(2) by (rule scanPeers_null_keys)
  with False run last sc show ?thesis
    by (simp add: finishHashBuild_def isShortCircuitJoin_def Let_def)
qed

lemma countNullKeys_state:
  "state (countNullKeys hb input) = state hb"
  "noMoreInput_flag (countNullKeys hb input) = noMoreInput_flag hb"
  "poolReleases (countNullKeys hb input) = poolReleases hb"
  by (simp_all add: countNullKeys_def)

text \<open>A driver that is not the last to arrive waits at the barrier.\<close>

lemma finishHashBuild_not_last:
  assumes "state (self w) = kRunning" and "\<not> allPeersFinished env"
  shows "finishHashBuild env w
         = Inr (w\<lparr>self := (self w)\<lparr>poolReleases := poolReleases (self w) + 1,
                                   state := kWaitForBuild\<rparr>\<rparr>, False)"
  using assms by (simp add: finishHashBuild_def Let_def)

text \<open>
  The scan of the peers fails at a closed peer that comes before every peer with
  a null key.
\<close>

lemma scanPeers_closed_first:
  assumes "list_all (\<lambda>q. \<not> joinHasNullKeys q \<and> \<not> stateCleared q) pre"
    and "stateCleared c" and "\<not> joinHasNullKeys c"
  shows "scanPeers sc (pre @ c # post) nk = ScanFailed"
  using assms by (induction pre arbitrary: nk) auto

lemma finishHashBuild_closed_peer:
  assumes run: "state (self w) = kRunning"
    and last: "allPeersFinished env"
    and own: "\<not> joinHasNullKeys (self w)"
    and closed: "\<exists>pre c post. peers w = pre @ c # post \<and> stateCleared c \<and> \<not> joinHasNullKeys c \<and>
          list_all (\<lambda>q. \<not> joinHasNullKeys q \<and> \<not> stateCleared q) pre"
  shows "finishHashBuild env w = Inl VeloxCheckFailure"
proof -
  from closed obtain pre c post where
    ps: "peers w = pre @ c # post" "stateCleared c" "\<not> joinHasNullKeys c"
      "list_all (\<lambda>q. \<not> joinHasNullKeys q \<and> \<not> stateCleared q) pre"
    by blast
  have "scanPeers sc (peers w) False = ScanFailed" for sc
    unfolding ps(1) using ps(4) ps(2) ps(3) by (rule scanPeers_closed_first)
  with run last own show ?thesis
    by (simp add: finishHashBuild_def Let_def)
qed

text \<open>
  \<^verbatim>\<open>addInput\<close> on a batch with a null key, in full: the batch goes neither to the
  spiller nor to the table.
\<close>

lemma addInput_null_key:
  assumes run: "state (self w) = kRunning"
    and fits: "ensureInputFits env w input = Inr w1"
    and sc: "isShortCircuitJoin (self w1)"
    and nulls: "list_ex hasNullKey input \<or> joinHasNullKeys (self w1)"
    and seen: "hb = (countNullKeys (self w1) input)\<lparr>joinHasNullKeys := True\<rparr>"
  shows "addInput env w input =
     (if state (self w1) \<noteq> kRunning then Inl VeloxCheckFailure
      else if noMoreInput_flag (self w1) then Inr (w1\<lparr>self := hb\<rparr>)
      else if \<not> allPeersFinished env
      then Inr (w1\<lparr>self := hb\<lparr>noMoreInput_flag := True,
                                poolReleases := poolReleases (self w1) + 1,
                                state := kWaitForBuild\<rparr>\<rparr>)
      else postHashBuildProcess env
             (w1\<lparr>self := hb\<lparr>noMoreInput_flag := True,
                              poolReleases := poolReleases (self w1) + 1\<rparr>,
                  bridge := (bridge w1)\<lparr>antiJoinHasNullKeys := True\<rparr>\<rparr>))"
proof -
  define w3 where "w3 = w1\<lparr>self := hb\<lparr>noMoreInput_flag := True\<rparr>\<rparr>"
  have a: "addInput env w input = noMoreInput env (w1\<lparr>self := hb\<rparr>)"
    unfolding seen using run fits sc nulls by (rule addInput_short_circuit)
  have hbf: "state hb = state (self w1)" "noMoreInput_flag hb = noMoreInput_flag (self w1)"
      "joinHasNullKeys hb" "poolReleases hb = poolReleases (self w1)"
    by (simp_all add: seen countNullKeys_state)
  have sc3: "isShortCircuitJoin (self w3)"
    using sc by (simp add: w3_def seen isShortCircuitJoin_def countNullKeys_fields)
  show ?thesis
  proof (cases "state (self w1) = kRunning")
    case False
    with a hbf show ?thesis by (simp add: noMoreInput_def)
  next
    case running: True
    show ?thesis
    proof (cases "noMoreInput_flag (self w1)")
      case True
      with a hbf running show ?thesis by (simp add: noMoreInput_def)
    next
      case first: False
      have b: "addInput env w input = noMoreInputInternal env w3"
        using a hbf running first by (simp add: noMoreInput_def w3_def)
      have run3: "state (self w3) = kRunning"
        using hbf running by (simp add: w3_def)
      show ?thesis
      proof (cases "allPeersFinished env")
        case False
        from finishHashBuild_not_last [OF run3 False]
        have "noMoreInputInternal env w3
              = Inr (w3\<lparr>self := (self w3)\<lparr>poolReleases := poolReleases (self w3) + 1,
                                            state := kWaitForBuild\<rparr>\<rparr>)"
          by (simp add: noMoreInputInternal_def)
        with b running first False hbf(4) show ?thesis
          by (simp add: w3_def)
      next
        case True
        have "joinHasNullKeys (self w3)"
          using hbf(3) by (simp add: w3_def)
        then have "joinHasNullKeys (self w3) \<or>
           (\<exists>pre b post. peers w3 = pre @ b # post \<and> joinHasNullKeys b \<and>
              list_all (\<lambda>q. \<not> stateCleared q) pre)" ..
        from finishHashBuild_short_circuit [OF run3 True sc3 this]
        have "noMoreInputInternal env w3
              = postHashBuildProcess env
                 (w3\<lparr>self := (self w3)\<lparr>joinHasNullKeys := True,
                                        poolReleases := poolReleases (self w3) + 1\<rparr>,
                      bridge := (bridge w3)\<lparr>antiJoinHasNullKeys := True\<rparr>\<rparr>)"
          by (simp add: noMoreInputInternal_def)
        moreover have "w3\<lparr>self := (self w3)\<lparr>joinHasNullKeys := True,
                                        poolReleases := poolReleases (self w3) + 1\<rparr>,
                      bridge := (bridge w3)\<lparr>antiJoinHasNullKeys := True\<rparr>\<rparr>
            = w1\<lparr>self := hb\<lparr>noMoreInput_flag := True,
                              poolReleases := poolReleases (self w1) + 1\<rparr>,
                  bridge := (bridge w1)\<lparr>antiJoinHasNullKeys := True\<rparr>\<rparr>"
          using hbf(3,4) by (simp add: w3_def)
        ultimately show ?thesis
          using b running first True by simp
      qed
    qed
  qed
qed

lemmas build_example_defs = antiBuild_def waitingPeer_def nullRow_def plainRow_def emptyBridge_def
  lastDriverEnv_def antiWorld_def nullPeerWorld_def notLastEnv_def nullKeyWorld_def
  closedPeerWorld_def

text \<open>
  Claim C5, as stated, has \<^verbatim>\<open>finishHashBuild\<close> mark the bridge whenever a driver has
  seen a null key. A driver that is not the last to arrive stops at the barrier
  first: it returns false in state \<open>kWaitForBuild\<close> and the bridge is not marked,
  although this very operator has seen a null key. And the last driver fails a
  \<^verbatim>\<open>VELOX_CHECK\<close> when a closed peer comes before the peer with the null key.
\<close>

theorem null_aware_anti_join_counterexample:
  "state (self nullKeyWorld) = kRunning \<and> joinHasNullKeys (self nullKeyWorld) \<and>
   isShortCircuitJoin (self nullKeyWorld) \<and>
   finishHashBuild notLastEnv nullKeyWorld
     = Inr (nullKeyWorld\<lparr>self := (self nullKeyWorld)\<lparr>poolReleases := 1,
                                                     state := kWaitForBuild\<rparr>\<rparr>, False) \<and>
   \<not> antiJoinHasNullKeys (bridge nullKeyWorld) \<and>
   finishHashBuild lastDriverEnv closedPeerWorld = Inl VeloxCheckFailure"
proof -
  have h: "state (self nullKeyWorld) = kRunning" "joinHasNullKeys (self nullKeyWorld)"
      "isShortCircuitJoin (self nullKeyWorld)" "\<not> allPeersFinished notLastEnv"
      "\<not> antiJoinHasNullKeys (bridge nullKeyWorld)" "poolReleases (self nullKeyWorld) = 0"
    by (simp_all add: build_example_defs isShortCircuitJoin_def)
  have c: "state (self closedPeerWorld) = kRunning" "allPeersFinished lastDriverEnv"
      "\<not> joinHasNullKeys (self closedPeerWorld)"
      "peers closedPeerWorld
         = [] @ waitingPeer\<lparr>stateCleared := True\<rparr> # [waitingPeer\<lparr>joinHasNullKeys := True\<rparr>]"
      "stateCleared (waitingPeer\<lparr>stateCleared := True\<rparr>)"
      "\<not> joinHasNullKeys (waitingPeer\<lparr>stateCleared := True\<rparr>)"
    by (simp_all add: build_example_defs)
  have ex: "\<exists>pre c post. peers closedPeerWorld = pre @ c # post \<and> stateCleared c \<and>
          \<not> joinHasNullKeys c \<and> list_all (\<lambda>q. \<not> joinHasNullKeys q \<and> \<not> stateCleared q) pre"
    using c(4,5,6)
    by (intro exI [of _ "[]"] exI [of _ "waitingPeer\<lparr>stateCleared := True\<rparr>"]
          exI [of _ "[waitingPeer\<lparr>joinHasNullKeys := True\<rparr>]"]) simp
  from finishHashBuild_not_last [OF h(1,4)] finishHashBuild_closed_peer [OF c(1,2,3) ex] h
  show ?thesis by simp
qed

text \<open>
  Claim C5, amended: for a null-aware anti join without an extra filter,
  \<^verbatim>\<open>addInput\<close> on a running operator whose memory reservation went through, as soon
  as it observes a null build key (in this batch or before), calls
  \<^verbatim>\<open>noMoreInput()\<close> and returns without spilling or storing the batch:
  \<^verbatim>\<open>noMoreInput_\<close> is set, unless it was already, and \<^verbatim>\<open>finishHashBuild\<close> runs.
  \<^verbatim>\<open>finishHashBuild\<close> of a running operator that is not the last driver to arrive
  at the barrier only moves to \<open>kWaitForBuild\<close> and returns false, without marking
  the bridge. \<^verbatim>\<open>finishHashBuild\<close> of the last driver, when it or any peer has
  observed a null key, marks the join bridge as "anti join has null keys" and
  returns true before any table merge, with every table, spiller and peer as it
  was, provided no closed peer comes before the first peer with a null key; when
  a closed peer without a null key comes first and this operator has seen none,
  the \<^verbatim>\<open>VELOX_CHECK\<close> on \<^verbatim>\<open>stateCleared_\<close> fails instead.
\<close>

theorem null_aware_anti_join_short_circuit:
  "(state (self w) = kRunning \<and> ensureInputFits env w input = Inr w1 \<and>
    isShortCircuitJoin (self w1) \<and> (list_ex hasNullKey input \<or> joinHasNullKeys (self w1)) \<and>
    hb = (countNullKeys (self w1) input)\<lparr>joinHasNullKeys := True\<rparr>
    \<longrightarrow> addInput env w input =
       (if state (self w1) \<noteq> kRunning then Inl VeloxCheckFailure
        else if noMoreInput_flag (self w1) then Inr (w1\<lparr>self := hb\<rparr>)
        else if \<not> allPeersFinished env
        then Inr (w1\<lparr>self := hb\<lparr>noMoreInput_flag := True,
                                  poolReleases := poolReleases (self w1) + 1,
                                  state := kWaitForBuild\<rparr>\<rparr>)
        else postHashBuildProcess env
               (w1\<lparr>self := hb\<lparr>noMoreInput_flag := True,
                                poolReleases := poolReleases (self w1) + 1\<rparr>,
                    bridge := (bridge w1)\<lparr>antiJoinHasNullKeys := True\<rparr>\<rparr>))) \<and>
   (state (self w) = kRunning \<and> \<not> allPeersFinished env
    \<longrightarrow> finishHashBuild env w
        = Inr (w\<lparr>self := (self w)\<lparr>poolReleases := poolReleases (self w) + 1,
                                  state := kWaitForBuild\<rparr>\<rparr>, False)) \<and>
   (state (self w) = kRunning \<and> allPeersFinished env \<and> isShortCircuitJoin (self w) \<and>
    (joinHasNullKeys (self w) \<or>
     (\<exists>pre b post. peers w = pre @ b # post \<and> joinHasNullKeys b \<and>
        list_all (\<lambda>q. \<not> stateCleared q) pre))
    \<longrightarrow> finishHashBuild env w
        = Inr (w\<lparr>self := (self w)\<lparr>joinHasNullKeys := True,
                                  poolReleases := poolReleases (self w) + 1\<rparr>,
                 bridge := (bridge w)\<lparr>antiJoinHasNullKeys := True\<rparr>\<rparr>, True)) \<and>
   (state (self w) = kRunning \<and> allPeersFinished env \<and> \<not> joinHasNullKeys (self w) \<and>
    (\<exists>pre c post. peers w = pre @ c # post \<and> stateCleared c \<and> \<not> joinHasNullKeys c \<and>
        list_all (\<lambda>q. \<not> joinHasNullKeys q \<and> \<not> stateCleared q) pre)
    \<longrightarrow> finishHashBuild env w = Inl VeloxCheckFailure)"
  using addInput_null_key [of w env input w1 hb]
    finishHashBuild_not_last [of w env]
    finishHashBuild_short_circuit [of w env]
    finishHashBuild_closed_peer [of w env]
  by blast

text \<open>
  Claim C5 on a batch of one row with a null key, given to the last driver and to
  one that is not the last; on a driver that is not the last; on a last driver
  whose peer has seen a null key; and on a last driver whose first peer is closed.
\<close>

theorem null_aware_anti_join_short_circuit_witness:
  "state (self antiWorld) = kRunning \<and>
   ensureInputFits lastDriverEnv antiWorld [nullRow] = Inr antiWorld \<and>
   ensureInputFits notLastEnv antiWorld [nullRow] = Inr antiWorld \<and>
   isShortCircuitJoin (self antiWorld) \<and> list_ex hasNullKey [nullRow] \<and>
   allPeersFinished lastDriverEnv \<and> \<not> allPeersFinished notLastEnv \<and>
   addInput lastDriverEnv antiWorld [nullRow]
     = Inr (antiWorld\<lparr>self := antiBuild\<lparr>numNullKeys := 1, joinHasNullKeys := True,
                                         noMoreInput_flag := True, poolReleases := 1\<rparr>,
                       bridge := emptyBridge\<lparr>antiJoinHasNullKeys := True\<rparr>\<rparr>) \<and>
   addInput notLastEnv antiWorld [nullRow]
     = Inr (antiWorld\<lparr>self := antiBuild\<lparr>numNullKeys := 1, joinHasNullKeys := True,
                                         noMoreInput_flag := True, poolReleases := 1,
                                         state := kWaitForBuild\<rparr>\<rparr>) \<and>
   finishHashBuild notLastEnv antiWorld
     = Inr (antiWorld\<lparr>self := antiBuild\<lparr>poolReleases := 1, state := kWaitForBuild\<rparr>\<rparr>, False) \<and>
   state (self nullPeerWorld) = kRunning \<and> isShortCircuitJoin (self nullPeerWorld) \<and>
   peers nullPeerWorld = [] @ waitingPeer\<lparr>joinHasNullKeys := True\<rparr> # [] \<and>
   finishHashBuild lastDriverEnv nullPeerWorld
     = Inr (nullPeerWorld\<lparr>self := antiBuild\<lparr>joinHasNullKeys := True, poolReleases := 1\<rparr>,
                           bridge := emptyBridge\<lparr>antiJoinHasNullKeys := True\<rparr>\<rparr>, True) \<and>
   state (self closedPeerWorld) = kRunning \<and> \<not> joinHasNullKeys (self closedPeerWorld) \<and>
   finishHashBuild lastDriverEnv closedPeerWorld = Inl VeloxCheckFailure"
proof -
  define hb where "hb = (countNullKeys (self antiWorld) [nullRow])\<lparr>joinHasNullKeys := True\<rparr>"
  have h1: "state (self antiWorld) = kRunning"
      "ensureInputFits lastDriverEnv antiWorld [nullRow] = Inr antiWorld"
      "ensureInputFits notLastEnv antiWorld [nullRow] = Inr antiWorld"
      "isShortCircuitJoin (self antiWorld)" "list_ex hasNullKey [nullRow]"
      "allPeersFinished lastDriverEnv" "\<not> allPeersFinished notLastEnv"
      "\<not> noMoreInput_flag (self antiWorld)"
    by (simp_all add: build_example_defs isShortCircuitJoin_def hasNullKey_def)
  have h2: "state (self nullPeerWorld) = kRunning" "isShortCircuitJoin (self nullPeerWorld)"
      "peers nullPeerWorld = [] @ waitingPeer\<lparr>joinHasNullKeys := True\<rparr> # []"
    by (simp_all add: build_example_defs isShortCircuitJoin_def)
  have ex: "\<exists>pre b post. peers nullPeerWorld = pre @ b # post \<and> joinHasNullKeys b \<and>
        list_all (\<lambda>q. \<not> stateCleared q) pre"
    using h2(3) by (intro exI [of _ "[]"] exI [of _ "waitingPeer\<lparr>joinHasNullKeys := True\<rparr>"]) simp
  have h3: "state (self closedPeerWorld) = kRunning" "\<not> joinHasNullKeys (self closedPeerWorld)"
      "peers closedPeerWorld
         = [] @ waitingPeer\<lparr>stateCleared := True\<rparr> # [waitingPeer\<lparr>joinHasNullKeys := True\<rparr>]"
      "stateCleared (waitingPeer\<lparr>stateCleared := True\<rparr>)"
      "\<not> joinHasNullKeys (waitingPeer\<lparr>stateCleared := True\<rparr>)"
    by (simp_all add: build_example_defs)
  have ex3: "\<exists>pre c post. peers closedPeerWorld = pre @ c # post \<and> stateCleared c \<and>
          \<not> joinHasNullKeys c \<and> list_all (\<lambda>q. \<not> joinHasNullKeys q \<and> \<not> stateCleared q) pre"
    using h3(3,4,5)
    by (intro exI [of _ "[]"] exI [of _ "waitingPeer\<lparr>stateCleared := True\<rparr>"]
          exI [of _ "[waitingPeer\<lparr>joinHasNullKeys := True\<rparr>]"]) simp
  have hbv: "hb = antiBuild\<lparr>numNullKeys := 1, joinHasNullKeys := True\<rparr>"
      "poolReleases antiBuild = 0" "bridge antiWorld = emptyBridge"
      "self antiWorld = antiBuild"
    by (simp_all add: hb_def build_example_defs countNullKeys_def hasNullKey_def)
  have post: "postHashBuildProcess lastDriverEnv x = Inr x" for x
    by (simp add: lastDriverEnv_def)
  have "addInput lastDriverEnv antiWorld [nullRow] =
       (if state (self antiWorld) \<noteq> kRunning then Inl VeloxCheckFailure
        else if noMoreInput_flag (self antiWorld) then Inr (antiWorld\<lparr>self := hb\<rparr>)
        else if \<not> allPeersFinished lastDriverEnv
        then Inr (antiWorld\<lparr>self := hb\<lparr>noMoreInput_flag := True,
                                  poolReleases := poolReleases (self antiWorld) + 1,
                                  state := kWaitForBuild\<rparr>\<rparr>)
        else postHashBuildProcess lastDriverEnv
               (antiWorld\<lparr>self := hb\<lparr>noMoreInput_flag := True,
                                poolReleases := poolReleases (self antiWorld) + 1\<rparr>,
                    bridge := (bridge antiWorld)\<lparr>antiJoinHasNullKeys := True\<rparr>\<rparr>))"
    by (rule null_aware_anti_join_short_circuit [of antiWorld lastDriverEnv "[nullRow]" antiWorld hb,
          THEN conjunct1, THEN mp])
       (use h1 hb_def in simp)
  then have a: "addInput lastDriverEnv antiWorld [nullRow]
     = Inr (antiWorld\<lparr>self := antiBuild\<lparr>numNullKeys := 1, joinHasNullKeys := True,
                                         noMoreInput_flag := True, poolReleases := 1\<rparr>,
                       bridge := emptyBridge\<lparr>antiJoinHasNullKeys := True\<rparr>\<rparr>)"
    using h1(1,6,8) by (simp add: post hbv)
  have "addInput notLastEnv antiWorld [nullRow] =
       (if state (self antiWorld) \<noteq> kRunning then Inl VeloxCheckFailure
        else if noMoreInput_flag (self antiWorld) then Inr (antiWorld\<lparr>self := hb\<rparr>)
        else if \<not> allPeersFinished notLastEnv
        then Inr (antiWorld\<lparr>self := hb\<lparr>noMoreInput_flag := True,
                                  poolReleases := poolReleases (self antiWorld) + 1,
                                  state := kWaitForBuild\<rparr>\<rparr>)
        else postHashBuildProcess notLastEnv
               (antiWorld\<lparr>self := hb\<lparr>noMoreInput_flag := True,
                                poolReleases := poolReleases (self antiWorld) + 1\<rparr>,
                    bridge := (bridge antiWorld)\<lparr>antiJoinHasNullKeys := True\<rparr>\<rparr>))"
    by (rule null_aware_anti_join_short_circuit [of antiWorld notLastEnv "[nullRow]" antiWorld hb,
          THEN conjunct1, THEN mp])
       (use h1 hb_def in simp)
  then have b: "addInput notLastEnv antiWorld [nullRow]
     = Inr (antiWorld\<lparr>self := antiBuild\<lparr>numNullKeys := 1, joinHasNullKeys := True,
                                         noMoreInput_flag := True, poolReleases := 1,
                                         state := kWaitForBuild\<rparr>\<rparr>)"
    using h1(1,7,8) by (simp add: hbv)
  have "finishHashBuild notLastEnv antiWorld
     = Inr (antiWorld\<lparr>self := (self antiWorld)\<lparr>poolReleases := poolReleases (self antiWorld) + 1,
                                  state := kWaitForBuild\<rparr>\<rparr>, False)"
    by (rule null_aware_anti_join_short_circuit [of antiWorld notLastEnv,
          THEN conjunct2, THEN conjunct1, THEN mp])
       (use h1 in simp)
  then have c: "finishHashBuild notLastEnv antiWorld
     = Inr (antiWorld\<lparr>self := antiBuild\<lparr>poolReleases := 1, state := kWaitForBuild\<rparr>\<rparr>, False)"
    by (simp add: hbv)
  have "finishHashBuild lastDriverEnv nullPeerWorld
     = Inr (nullPeerWorld\<lparr>self := (self nullPeerWorld)\<lparr>joinHasNullKeys := True,
                                  poolReleases := poolReleases (self nullPeerWorld) + 1\<rparr>,
                 bridge := (bridge nullPeerWorld)\<lparr>antiJoinHasNullKeys := True\<rparr>\<rparr>, True)"
    by (rule null_aware_anti_join_short_circuit [of nullPeerWorld lastDriverEnv,
          THEN conjunct2, THEN conjunct2, THEN conjunct1, THEN mp])
       (use h2(1,2) h1(6) ex in blast)
  moreover have "nullPeerWorld\<lparr>self := (self nullPeerWorld)\<lparr>joinHasNullKeys := True,
                                  poolReleases := poolReleases (self nullPeerWorld) + 1\<rparr>,
                 bridge := (bridge nullPeerWorld)\<lparr>antiJoinHasNullKeys := True\<rparr>\<rparr>
     = nullPeerWorld\<lparr>self := antiBuild\<lparr>joinHasNullKeys := True, poolReleases := 1\<rparr>,
                           bridge := emptyBridge\<lparr>antiJoinHasNullKeys := True\<rparr>\<rparr>"
    by (simp add: build_example_defs)
  ultimately have d: "finishHashBuild lastDriverEnv nullPeerWorld
     = Inr (nullPeerWorld\<lparr>self := antiBuild\<lparr>joinHasNullKeys := True, poolReleases := 1\<rparr>,
                           bridge := emptyBridge\<lparr>antiJoinHasNullKeys := True\<rparr>\<rparr>, True)"
    by (simp only:)
  have e: "finishHashBuild lastDriverEnv closedPeerWorld = Inl VeloxCheckFailure"
    by (rule null_aware_anti_join_short_circuit [of closedPeerWorld lastDriverEnv,
          THEN conjunct2, THEN conjunct2, THEN conjunct2, THEN mp])
       (use h3(1,2) h1(6) ex3 in blast)
  from h1 h2 h3(1,2) a b c d e show ?thesis by simp
qed









end
